theory Spec2Isabelle
  imports Main "HOL-Library.Word"
begin

section \<open>The MCFG container parser of efs\_mbn\_extractor.py\<close>

text \<open>
  A shallow embedding of \<^verbatim>\<open>src/efs_mbn_extractor.py\<close>. Python \<^verbatim>\<open>bytes\<close> are lists of
  8-bit words, Python integers are \<^typ>\<open>int\<close>, text obtained by ASCII decoding is a
  \<^typ>\<open>string\<close>. The \<^verbatim>\<open>io.BytesIO\<close> stream is a buffer with a cursor; the file
  system is the list of writes \<^verbatim>\<open>_save_to_file\<close> has performed, oldest first (the path
  opened and the bytes written). Both live in one state record, which every operation
  takes and returns, also when it raises: an exception of the source is an \<open>Inl\<close>
  result, and what was written before it stays written.

  Not modelled: the \<^verbatim>\<open>logger.info\<close> calls (they influence neither control flow nor
  output), the creation of directories, and failures of the operating system while
  a file is written. Paths follow \<^verbatim>\<open>posixpath\<close>, where \<^verbatim>\<open>os.sep\<close> is \<^verbatim>\<open>/\<close>.
\<close>

subsection \<open>Data\<close>

type_synonym byte = "8 word"

text \<open>One constructor for each message of \<^verbatim>\<open>MbnExtractorException\<close> in the source.\<close>

datatype error =
    FailedToParseELF
  | NoDataSegment
  | UnexpectedEOF
  | MagicNotFound
  | InvalidVersionId
  | InvalidVersionSize
  | ZeroItemsCount
  | UnknownItemType
  | InvalidTrailerMagic1
  | InvalidTrailerMagic2
  | InvalidTrailerSize
  | InvalidTrailerMagicValue
  | InvalidFileHeaderMagic
  | InvalidFileSizeMagic
  | InvalidFileItemSize
  | InvalidNvItemSize

record McfgHeader =
  magic :: string
  format_type :: int
  configuration_type :: int
  items_count :: int
  carrier_index :: int
  reserved :: int
  version :: int

record ItemHeader =
  ih_length :: int
  ih_type :: int
  ih_attributes :: int
  ih_reserved :: int

record world =
  stream_buf :: "byte list"
  stream_pos :: nat
  written :: "(string \<times> byte list) list"

type_synonym 'a action = "world \<Rightarrow> (error + 'a) \<times> world"

definition MAGIC :: "byte list" where
  "MAGIC = [0x4D, 0x43, 0x46, 0x47]"

definition TRAILER_MAGIC :: "byte list" where
  "TRAILER_MAGIC = [0x4D, 0x43, 0x46, 0x47, 0x5F, 0x54, 0x52, 0x4C]"

text \<open>The members of \<^verbatim>\<open>ItemType\<close>, an \<^verbatim>\<open>IntEnum\<close> that compares as its integer.\<close>

definition Nv :: int where "Nv = 1"
definition NvFile :: int where "NvFile = 2"
definition File :: int where "File = 4"

subsection \<open>Sequencing with exceptions\<close>

definition return_ok :: "'a \<Rightarrow> 'a action" where
  "return_ok x w = (Inr x, w)"

definition raise :: "error \<Rightarrow> 'a action" where
  "raise e w = (Inl e, w)"

text \<open>\<open>and_then m f\<close> runs \<open>m\<close>; an exception of \<open>m\<close> ends the sequence, \<open>f\<close> is not run.\<close>

definition and_then :: "'a action \<Rightarrow> ('a \<Rightarrow> 'b action) \<Rightarrow> 'b action" where
  "and_then m f w = (case m w of (Inl e, w') \<Rightarrow> (Inl e, w') | (Inr x, w') \<Rightarrow> f x w')"

subsection \<open>Bytes, integers and text\<close>

text \<open>\<^verbatim>\<open>struct.unpack\<close> with a little-endian unsigned format (\<^verbatim>\<open><H\<close>, \<^verbatim>\<open><I\<close>, \<^verbatim>\<open>B\<close>).\<close>

fun unpack_le :: "byte list \<Rightarrow> int" where
  "unpack_le [] = 0"
| "unpack_le (b # bs) = uint b + 256 * unpack_le bs"

text \<open>\<^verbatim>\<open>bytes.decode("ascii", errors="ignore")\<close>: a byte above 127 is dropped.\<close>

definition ascii_decode_ignore :: "byte list \<Rightarrow> string" where
  "ascii_decode_ignore bs = map (\<lambda>b. char_of (unat b)) (filter (\<lambda>b. b < 128) bs)"

text \<open>\<^verbatim>\<open>bytes.find\<close>: the index of the first occurrence, \<open>None\<close> for Python's \<open>-1\<close>.\<close>

fun bytes_find :: "byte list \<Rightarrow> byte list \<Rightarrow> nat option" where
  "bytes_find [] sub = (if sub = [] then Some 0 else None)"
| "bytes_find (x # xs) sub =
     (if take (length sub) (x # xs) = sub then Some 0
      else map_option Suc (bytes_find xs sub))"

text \<open>The decimal digits of a natural number, most significant first.\<close>

function decimal :: "nat \<Rightarrow> string" where
  "decimal n =
     (if n < 10 then [char_of (48 + n)]
      else decimal (n div 10) @ [char_of (48 + n mod 10)])"
  by pat_completeness auto
termination
  by (relation "measure id") auto

declare decimal.simps [simp del]

definition zfill :: "nat \<Rightarrow> string \<Rightarrow> string" where
  "zfill width s = replicate (width - length s) (CHR ''0'') @ s"

text \<open>The format specification \<^verbatim>\<open>08d\<close>: sign first, then zeros up to a width of 8.\<close>

definition format_08d :: "int \<Rightarrow> string" where
  "format_08d n =
     (if n < 0 then CHR ''-'' # zfill 7 (decimal (nat (- n)))
      else zfill 8 (decimal (nat n)))"

subsection \<open>The stream\<close>

text \<open>\<^verbatim>\<open>BytesIO.read(size)\<close>: a negative size reads to the end of the buffer.\<close>

definition stream_read :: "int \<Rightarrow> world \<Rightarrow> byte list \<times> world" where
  "stream_read sz w =
     (let rest = drop (stream_pos w) (stream_buf w);
          data = (if sz < 0 then rest else take (nat sz) rest)
      in (data, w\<lparr>stream_pos := stream_pos w + length data\<rparr>))"

definition tell :: "nat action" where
  "tell w = (Inr (stream_pos w), w)"

definition read_exact :: "int \<Rightarrow> byte list action" where
  "read_exact sz w =
     (case stream_read sz w of
        (data, w') \<Rightarrow>
          if int (length data) \<noteq> sz then (Inl UnexpectedEOF, w')
          else (Inr data, w'))"

text \<open>\<^verbatim>\<open>struct.unpack("<H", _read_exact(stream, 2))[0]\<close> and the same with \<^verbatim>\<open><I\<close>.\<close>

definition read_H :: "int action" where
  "read_H = and_then (read_exact 2) (\<lambda>data. return_ok (unpack_le data))"

definition read_I :: "int action" where
  "read_I = and_then (read_exact 4) (\<lambda>data. return_ok (unpack_le data))"

definition find_magic_and_seek :: "byte list \<Rightarrow> unit action" where
  "find_magic_and_seek magic_bytes w =
     (case stream_read (- 1) w of
        (data, w') \<Rightarrow>
          (case bytes_find data magic_bytes of
             None \<Rightarrow> (Inl MagicNotFound, w')
           | Some idx \<Rightarrow> (Inr (), w'\<lparr>stream_pos := idx\<rparr>)))"

subsection \<open>The output sink\<close>

definition os_sep :: char where
  "os_sep = CHR ''/''"

text \<open>\<^verbatim>\<open>posixpath.join\<close> of two components.\<close>

definition os_path_join :: "string \<Rightarrow> string \<Rightarrow> string" where
  "os_path_join a b =
     (if take 1 b = [os_sep] then b
      else if a = [] \<or> (a \<noteq> [] \<and> last a = os_sep) then a @ b
      else a @ [os_sep] @ b)"

definition save_to_file :: "string \<Rightarrow> byte list \<Rightarrow> string \<Rightarrow> unit action" where
  "save_to_file file_name content output_directory w =
     (let file_path =
            dropWhile (\<lambda>c. c = os_sep)
              (map (\<lambda>c. if c = CHR ''/'' then os_sep else c) file_name);
          path = os_path_join output_directory file_path
      in (Inr (), w\<lparr>written := written w @ [(path, content)]\<rparr>))"

subsection \<open>The container\<close>

definition read_mcfg_header :: "McfgHeader action" where
  "read_mcfg_header =
     and_then (find_magic_and_seek MAGIC) (\<lambda>_.
     and_then (read_exact (int (length MAGIC))) (\<lambda>magic_bytes.
     and_then read_H (\<lambda>format_type'.
     and_then read_H (\<lambda>configuration_type'.
     and_then read_I (\<lambda>items_count'.
     and_then read_H (\<lambda>carrier_index'.
     and_then read_H (\<lambda>reserved'.
     and_then read_H (\<lambda>version_id.
     if version_id \<noteq> 4995 then raise InvalidVersionId else
     and_then read_H (\<lambda>version_size.
     if version_size \<noteq> 4 then raise InvalidVersionSize else
     and_then read_I (\<lambda>version'.
     return_ok \<lparr>magic = ascii_decode_ignore magic_bytes,
                format_type = format_type',
                configuration_type = configuration_type',
                items_count = items_count',
                carrier_index = carrier_index',
                reserved = reserved',
                version = version'\<rparr>))))))))))"

definition read_item_header :: "ItemHeader action" where
  "read_item_header =
     and_then (read_exact 8) (\<lambda>data.
     return_ok \<lparr>ih_length = unpack_le (take 4 data),
                ih_type = unpack_le (take 1 (drop 4 data)),
                ih_attributes = unpack_le (take 1 (drop 5 data)),
                ih_reserved = unpack_le (take 2 (drop 6 data))\<rparr>)"

text \<open>
  The right-hand side of the last comparison is \<^verbatim>\<open>TRAILER_MAGIC.decode("ascii")\<close>, a
  strict decoding of a constant whose bytes are all below 128; on such bytes it gives
  what the ignoring decoder gives (\<open>trailer_magic_text\<close>: the text \<^verbatim>\<open>MCFG_TRL\<close>).
\<close>

definition read_trailer :: "unit action" where
  "read_trailer =
     and_then (read_exact 4) (\<lambda>_.
     and_then read_H (\<lambda>trailer_magic.
     if trailer_magic \<noteq> 10 then raise InvalidTrailerMagic1 else
     and_then (read_exact 2) (\<lambda>_.
     and_then read_H (\<lambda>trailer_magic2.
     if trailer_magic2 \<noteq> 0xA1 then raise InvalidTrailerMagic2 else
     and_then read_H (\<lambda>data_length.
     if data_length < 8 then raise InvalidTrailerSize else
     and_then (read_exact (data_length - 8)) (\<lambda>payload.
     if ascii_decode_ignore payload \<noteq> ascii_decode_ignore TRAILER_MAGIC
     then raise InvalidTrailerMagicValue
     else return_ok ()))))))"

definition parse_file ::
  "ItemHeader \<Rightarrow> bool \<Rightarrow> bool \<Rightarrow> string \<Rightarrow> unit action" where
  "parse_file item_header is_nv_file no_extra_data output_directory =
     and_then tell (\<lambda>pos.
     and_then read_H (\<lambda>file_header_magic.
     if file_header_magic \<noteq> 1 then raise InvalidFileHeaderMagic else
     and_then read_H (\<lambda>file_name_length.
     and_then (read_exact file_name_length) (\<lambda>raw_name.
     let file_name =
           (if file_name_length > 0
            then ascii_decode_ignore (take (nat (max 0 (file_name_length - 1))) raw_name)
            else [])
     in
     and_then read_H (\<lambda>file_size_magic.
     if file_size_magic \<noteq> 2 then raise InvalidFileSizeMagic else
     and_then read_H (\<lambda>declared.
     let data_length = declared - 1 in
     and_then (read_exact 1) (\<lambda>_.
     and_then (read_exact data_length) (\<lambda>data.
     and_then tell (\<lambda>pos'.
     let real_length = (int pos' - int pos) + 8 in
     if real_length \<noteq> ih_length item_header then raise InvalidFileItemSize else
     let save_name =
           (if no_extra_data then file_name
            else if is_nv_file then file_name @ ''__E1FF_F''
            else file_name @ ''__81FF_0'')
     in save_to_file save_name data output_directory)))))))))"

definition parse_nv :: "ItemHeader \<Rightarrow> string \<Rightarrow> unit action" where
  "parse_nv item_header output_directory =
     and_then tell (\<lambda>pos.
     and_then read_H (\<lambda>nv_id.
     and_then read_H (\<lambda>declared.
     let data_length = declared - 1 in
     and_then (read_exact 1) (\<lambda>_.
     and_then (read_exact data_length) (\<lambda>data.
     and_then tell (\<lambda>pos'.
     let real_length = (int pos' - int pos) + 8 in
     if real_length \<noteq> ih_length item_header then raise InvalidNvItemSize else
     let file_name = ''NvItem__'' @ format_08d nv_id
     in save_to_file file_name data output_directory))))))"

text \<open>One pass of the loop body of \<^verbatim>\<open>_parse_image\<close>.\<close>

definition parse_item :: "string \<Rightarrow> bool \<Rightarrow> unit action" where
  "parse_item output_directory no_extra_data =
     and_then read_item_header (\<lambda>item_header.
     let item_type = ih_type item_header in
     if item_type = Nv then parse_nv item_header output_directory
     else if item_type = NvFile
       then parse_file item_header True no_extra_data output_directory
     else if item_type = File
       then parse_file item_header False no_extra_data output_directory
     else raise UnknownItemType)"

text \<open>\<^verbatim>\<open>for _ in range(total_items_to_read)\<close>.\<close>

fun parse_items :: "nat \<Rightarrow> string \<Rightarrow> bool \<Rightarrow> unit action" where
  "parse_items 0 output_directory no_extra_data = return_ok ()"
| "parse_items (Suc n) output_directory no_extra_data =
     and_then (parse_item output_directory no_extra_data) (\<lambda>_.
     parse_items n output_directory no_extra_data)"

definition parse_image :: "string \<Rightarrow> bool \<Rightarrow> unit action" where
  "parse_image output_directory no_extra_data =
     and_then read_mcfg_header (\<lambda>mcfg_header.
     if items_count mcfg_header = 0 then raise ZeroItemsCount else
     let total_items_to_read = max 0 (items_count mcfg_header - 1) in
     and_then (parse_items (nat total_items_to_read) output_directory no_extra_data) (\<lambda>_.
     read_trailer))"

subsection \<open>The ELF wrapper and the command line\<close>

text \<open>
  \<^verbatim>\<open>pyelftools\<close> and the operating system are outside the repository; \<^verbatim>\<open>MbnExtractor.extract\<close> and
  \<^verbatim>\<open>main\<close> take what they return as parameters. A segment whose \<^verbatim>\<open>data()\<close> raises has
  \<open>seg_data = None\<close>; \<open>elf_segments\<close> is \<open>None\<close> when \<^verbatim>\<open>ELFFile(f)\<close> raises.
\<close>

record segment =
  seg_data :: "byte list option"
  p_offset :: nat
  p_filesz :: nat

record os_env =
  abspath :: "string \<Rightarrow> string"
  isfile :: "string \<Rightarrow> bool"
  getcwd :: string
  makedirs_ok :: "string \<Rightarrow> bool"
  file_contents :: "string \<Rightarrow> byte list"
  elf_segments :: "byte list \<Rightarrow> segment list option"

record args =
  arg_input :: string
  arg_output :: "string option"
  arg_no_extra :: bool

datatype py_exception = MbnExtractorException error | NameError string | OSError

datatype pyval = PyBool bool | PyStr string | PyObj

definition truthy :: "pyval \<Rightarrow> bool" where
  "truthy v = (case v of PyBool b \<Rightarrow> b | PyStr s \<Rightarrow> s \<noteq> [] | PyObj \<Rightarrow> True)"

text \<open>\<^verbatim>\<open>io.BytesIO(contents)\<close>: a new stream at offset 0; nothing has been written yet.\<close>

definition BytesIO :: "byte list \<Rightarrow> world" where
  "BytesIO contents = \<lparr>stream_buf = contents, stream_pos = 0, written = []\<rparr>"

definition MbnExtractor_extract ::
  "string \<Rightarrow> string \<Rightarrow> bool \<Rightarrow> os_env \<Rightarrow> (py_exception + unit) \<times> (string \<times> byte list) list" where
  "MbnExtractor_extract input_mbn_file_path output_directory no_extra_data env =
     (let f = file_contents env input_mbn_file_path in
      case elf_segments env f of
        None \<Rightarrow> (Inl (MbnExtractorException FailedToParseELF), [])
      | Some segments \<Rightarrow>
          if length segments < 3 then (Inl (MbnExtractorException NoDataSegment), [])
          else
            let seg = segments ! 2;
                contents =
                  (case seg_data seg of
                     Some d \<Rightarrow> d
                   | None \<Rightarrow> take (p_filesz seg) (drop (p_offset seg) f))
            in case parse_image output_directory no_extra_data (BytesIO contents) of
                 (Inl e, w) \<Rightarrow> (Inl (MbnExtractorException e), written w)
               | (Inr u, w) \<Rightarrow> (Inr (), written w))"

text \<open>\<^verbatim>\<open>posixpath.dirname\<close>.\<close>

definition dirname :: "string \<Rightarrow> string" where
  "dirname p =
     (let head = rev (dropWhile (\<lambda>c. c \<noteq> CHR ''/'') (rev p))
      in if head \<noteq> [] \<and> head \<noteq> replicate (length head) (CHR ''/'')
         then rev (dropWhile (\<lambda>c. c = CHR ''/'') (rev head))
         else head)"

text \<open>
  The names bound at module level when \<^verbatim>\<open>main\<close> runs. A name that \<^verbatim>\<open>main\<close> never
  assigns is looked up here (no builtin is called \<^verbatim>\<open>no_extra\<close>); a missing name
  raises \<^verbatim>\<open>NameError\<close>. The locals of \<^verbatim>\<open>main\<close> are \<^verbatim>\<open>parser\<close>, \<^verbatim>\<open>args\<close>, \<^verbatim>\<open>logger\<close>,
  \<^verbatim>\<open>input_path\<close>, \<^verbatim>\<open>outdir\<close>, \<^verbatim>\<open>me\<close> and \<^verbatim>\<open>e\<close>.
\<close>

definition module_globals :: "string list" where
  "module_globals =
     [''annotations'', ''os'', ''io'', ''sys'', ''struct'', ''argparse'', ''logging'',
      ''IntEnum'', ''BinaryIO'', ''Optional'', ''ELFFile'', ''MbnExtractorException'',
      ''ItemType'', ''McfgHeader'', ''ItemHeader'', ''MbnExtractor'', ''main'']"

definition load_global :: "string \<Rightarrow> py_exception + pyval" where
  "load_global name =
     (if name \<in> set module_globals then Inr PyObj else Inl (NameError name))"

text \<open>
  \<^verbatim>\<open>main\<close>, from the parsed arguments on: the exit status of the process and the files
  written. An exception that nothing catches ends the process with status 1.
\<close>

definition main :: "args \<Rightarrow> os_env \<Rightarrow> int \<times> (string \<times> byte list) list" where
  "main a env =
     (let input_path = abspath env (arg_input a) in
      if \<not> isfile env input_path then (2, [])
      else
        let outdir =
              (case arg_output a of
                 None \<Rightarrow>
                   (if dirname input_path @ ''/mcfg_sw'' \<noteq> []
                    then dirname input_path @ ''/mcfg_sw''
                    else getcwd env @ ''/mcfg_sw'')
               | Some p \<Rightarrow> p)
        in if \<not> makedirs_ok env outdir then (1, [])
           else
             case (case load_global ''no_extra'' of
                     Inl ex \<Rightarrow> (Inl ex, [])
                   | Inr v \<Rightarrow> MbnExtractor_extract input_path outdir (truthy v) env) of
               (Inr u, files) \<Rightarrow> (0, files)
             | (Inl (MbnExtractorException me), files) \<Rightarrow> (2, files)
             | (Inl ex, files) \<Rightarrow> (1, files))"

subsection \<open>Reading the buffer in the statements\<close>

text \<open>
  The statements below name the fields of a record by their place in the buffer:
  \<open>bytes_at b off n\<close> are the \<open>n\<close> bytes from offset \<open>off\<close>, \<open>u16_at\<close> and \<open>u32_at\<close>
  the little-endian numbers there, \<open>has_bytes b off n\<close> says that they all exist.
\<close>

definition bytes_at :: "byte list \<Rightarrow> nat \<Rightarrow> nat \<Rightarrow> byte list" where
  "bytes_at b off n = take n (drop off b)"

definition has_bytes :: "byte list \<Rightarrow> nat \<Rightarrow> nat \<Rightarrow> bool" where
  "has_bytes b off n = (off + n \<le> length b)"

definition u16_at :: "byte list \<Rightarrow> nat \<Rightarrow> int" where
  "u16_at b off = unpack_le (bytes_at b off 2)"

definition u32_at :: "byte list \<Rightarrow> nat \<Rightarrow> int" where
  "u32_at b off = unpack_le (bytes_at b off 4)"

subsection \<open>Outcomes of an action\<close>

text \<open>
  \<open>wp m Q E w\<close> holds when running \<open>m\<close> in \<open>w\<close> either returns a value and a state
  that satisfy \<open>Q\<close>, or raises an error and leaves a state that satisfy \<open>E\<close>. It is
  only used to state and prove facts about the actions above.
\<close>

definition wp ::
  "'a action \<Rightarrow> ('a \<Rightarrow> world \<Rightarrow> bool) \<Rightarrow> (error \<Rightarrow> world \<Rightarrow> bool) \<Rightarrow> world \<Rightarrow> bool" where
  "wp m Q E w = (case m w of (Inr x, w') \<Rightarrow> Q x w' | (Inl e, w') \<Rightarrow> E e w')"

text \<open>The number that a string of decimal digits denotes.\<close>

definition decimal_value :: "string \<Rightarrow> nat" where
  "decimal_value s = foldl (\<lambda>acc c. 10 * acc + (of_char c - 48)) 0 s"

subsection \<open>Sample inputs\<close>

text \<open>
  Concrete buffers on which the statements below are evaluated: the payload of an NV
  item (id 7, two data bytes), the payload of a file item (name \<^verbatim>\<open>abc\<close>, one data byte),
  trailers, container headers, and a whole image with an NV item, a file item and the
  trailer behind four leading bytes.
\<close>

definition sample_nv_payload :: "byte list" where
  "sample_nv_payload =
     [0x07, 0x00, 0x03, 0x00, 0x00, 0xAA, 0xBB]"

definition sample_file_payload :: "byte list" where
  "sample_file_payload =
     [0x01, 0x00, 0x04, 0x00, 0x61, 0x62, 0x63, 0x00, 0x02, 0x00, 0x02, 0x00,
      0x00, 0xCC]"

definition sample_trailer :: "byte list" where
  "sample_trailer =
     [0x00, 0x00, 0x00, 0x00, 0x0A, 0x00, 0x00, 0x00, 0xA1, 0x00, 0x10, 0x00,
      0x4D, 0x43, 0x46, 0x47, 0x5F, 0x54, 0x52, 0x4C]"

definition sample_trailer_padded :: "byte list" where
  "sample_trailer_padded =
     [0x00, 0x00, 0x00, 0x00, 0x0A, 0x00, 0x00, 0x00, 0xA1, 0x00, 0x11, 0x00,
      0x4D, 0x43, 0x46, 0x47, 0x80, 0x5F, 0x54, 0x52, 0x4C]"

definition sample_trailer_replaced :: "byte list" where
  "sample_trailer_replaced =
     [0x00, 0x00, 0x00, 0x00, 0x0A, 0x00, 0x00, 0x00, 0xA1, 0x00, 0x10, 0x00,
      0x4D, 0x43, 0x46, 0x47, 0x5F, 0x54, 0x52, 0x58]"

definition sample_image :: "byte list" where
  "sample_image =
     [0x7F, 0x45, 0x4C, 0x46, 0x4D, 0x43, 0x46, 0x47, 0x01, 0x00, 0x02, 0x00,
      0x03, 0x00, 0x00, 0x00, 0x00, 0x00, 0x00, 0x00, 0x83, 0x13, 0x04, 0x00,
      0x04, 0x03, 0x02, 0x01, 0x0F, 0x00, 0x00, 0x00, 0x01, 0x00, 0x00, 0x00,
      0x07, 0x00, 0x03, 0x00, 0x00, 0xAA, 0xBB, 0x16, 0x00, 0x00, 0x00, 0x04,
      0x00, 0x00, 0x00, 0x01, 0x00, 0x04, 0x00, 0x61, 0x62, 0x63, 0x00, 0x02,
      0x00, 0x02, 0x00, 0x00, 0xCC, 0x00, 0x00, 0x00, 0x00, 0x0A, 0x00, 0x00,
      0x00, 0xA1, 0x00, 0x10, 0x00, 0x4D, 0x43, 0x46, 0x47, 0x5F, 0x54, 0x52,
      0x4C]"

definition sample_nv_payload_size0 :: "byte list" where
  "sample_nv_payload_size0 =
     [0x07, 0x00, 0x00, 0x00, 0x00, 0xAA, 0xBB]"

definition sample_file_payload_size0 :: "byte list" where
  "sample_file_payload_size0 =
     [0x01, 0x00, 0x04, 0x00, 0x61, 0x62, 0x63, 0x00, 0x02, 0x00, 0x00, 0x00,
      0x00, 0xCC]"

definition sample_file_payload_non_ascii :: "byte list" where
  "sample_file_payload_non_ascii =
     [0x01, 0x00, 0x04, 0x00, 0x61, 0xFF, 0x62, 0x00, 0x02, 0x00, 0x02, 0x00,
      0x00, 0xCC]"

definition sample_header_bad_id :: "byte list" where
  "sample_header_bad_id =
     [0x4D, 0x43, 0x46, 0x47, 0x01, 0x00, 0x02, 0x00, 0x01, 0x00, 0x00, 0x00,
      0x00, 0x00, 0x00, 0x00, 0x84, 0x13, 0x04, 0x00, 0x04, 0x03, 0x02, 0x01]"

definition sample_header_bad_size :: "byte list" where
  "sample_header_bad_size =
     [0x4D, 0x43, 0x46, 0x47, 0x01, 0x00, 0x02, 0x00, 0x01, 0x00, 0x00, 0x00,
      0x00, 0x00, 0x00, 0x00, 0x83, 0x13, 0x05, 0x00, 0x04, 0x03, 0x02, 0x01]"

definition sample_header_zero_items :: "byte list" where
  "sample_header_zero_items =
     [0x4D, 0x43, 0x46, 0x47, 0x01, 0x00, 0x02, 0x00, 0x00, 0x00, 0x00, 0x00,
      0x00, 0x00, 0x00, 0x00, 0x83, 0x13, 0x04, 0x00, 0x04, 0x03, 0x02, 0x01]"

definition sample_image_tampered_trailer :: "byte list" where
  "sample_image_tampered_trailer =
     [0x7F, 0x45, 0x4C, 0x46, 0x4D, 0x43, 0x46, 0x47, 0x01, 0x00, 0x02, 0x00,
      0x03, 0x00, 0x00, 0x00, 0x00, 0x00, 0x00, 0x00, 0x83, 0x13, 0x04, 0x00,
      0x04, 0x03, 0x02, 0x01, 0x0F, 0x00, 0x00, 0x00, 0x01, 0x00, 0x00, 0x00,
      0x07, 0x00, 0x03, 0x00, 0x00, 0xAA, 0xBB, 0x16, 0x00, 0x00, 0x00, 0x04,
      0x00, 0x00, 0x00, 0x01, 0x00, 0x04, 0x00, 0x61, 0x62, 0x63, 0x00, 0x02,
      0x00, 0x02, 0x00, 0x00, 0xCC, 0x00, 0x00, 0x00, 0x00, 0x0A, 0x00, 0x00,
      0x00, 0xA1, 0x00, 0x10, 0x00, 0x4D, 0x43, 0x46, 0x47, 0x5F, 0x54, 0x52,
      0x58]"

text \<open>
  An environment in which \<^verbatim>\<open>/in/carrier.mbn\<close> exists and is an ELF file whose third
  segment holds \<open>sample_image\<close>, and the command line that names it.
\<close>

definition sample_env :: os_env where
  "sample_env =
     \<lparr>abspath = (\<lambda>p. p),
      isfile = (\<lambda>p. p = ''/in/carrier.mbn''),
      getcwd = ''/in'',
      makedirs_ok = (\<lambda>d. True),
      file_contents = (\<lambda>p. sample_image),
      elf_segments = (\<lambda>f. Some
        [\<lparr>seg_data = Some [], p_offset = 0, p_filesz = 0\<rparr>,
         \<lparr>seg_data = Some [], p_offset = 0, p_filesz = 0\<rparr>,
         \<lparr>seg_data = Some f, p_offset = 0, p_filesz = length f\<rparr>])\<rparr>"

definition sample_args :: args where
  "sample_args = \<lparr>arg_input = ''/in/carrier.mbn'', arg_output = None, arg_no_extra = False\<rparr>"

section \<open>Basic facts\<close>

subsection \<open>Sequencing, reads and the sink\<close>

lemma and_then_Inr_iff:
  "and_then m f w = (Inr y, w') \<longleftrightarrow> (\<exists>x w1. m w = (Inr x, w1) \<and> f x w1 = (Inr y, w'))"
  by (auto simp: and_then_def split: prod.splits sum.splits)

lemma and_then_Inl_iff:
  "and_then m f w = (Inl e, w') \<longleftrightarrow>
     m w = (Inl e, w') \<or> (\<exists>x w1. m w = (Inr x, w1) \<and> f x w1 = (Inl e, w'))"
  by (auto simp: and_then_def split: prod.splits sum.splits)

lemma length_bytes_at: "length (bytes_at b off n) = n \<longleftrightarrow> n = 0 \<or> off + n \<le> length b"
  by (auto simp: bytes_at_def min_def)

lemma read_exact_Inr_iff:
  "read_exact n w = (Inr d, w') \<longleftrightarrow>
     0 \<le> n \<and> (n = 0 \<or> stream_pos w + nat n \<le> length (stream_buf w)) \<and>
     d = bytes_at (stream_buf w) (stream_pos w) (nat n) \<and>
     w' = w\<lparr>stream_pos := stream_pos w + nat n\<rparr>"
  by (auto simp: read_exact_def stream_read_def bytes_at_def Let_def min_def split: if_splits)

lemma read_exact_Inl_iff:
  "read_exact n w = (Inl e, w') \<longleftrightarrow>
     e = UnexpectedEOF \<and> \<not> (0 \<le> n \<and> (n = 0 \<or> stream_pos w + nat n \<le> length (stream_buf w))) \<and>
     w' = snd (stream_read n w)"
  by (auto simp: read_exact_def stream_read_def bytes_at_def Let_def min_def split: if_splits)

lemma stream_read_keeps [simp]:
  "written (snd (stream_read n w)) = written w"
  "stream_buf (snd (stream_read n w)) = stream_buf w"
  by (simp_all add: stream_read_def Let_def)

lemma read_H_Inr_iff:
  "read_H w = (Inr v, w') \<longleftrightarrow>
     stream_pos w + 2 \<le> length (stream_buf w) \<and>
     v = u16_at (stream_buf w) (stream_pos w) \<and>
     w' = w\<lparr>stream_pos := stream_pos w + 2\<rparr>"
  by (auto simp: read_H_def and_then_Inr_iff read_exact_Inr_iff return_ok_def u16_at_def)

lemma read_H_Inl_iff:
  "read_H w = (Inl e, w') \<longleftrightarrow>
     e = UnexpectedEOF \<and> \<not> stream_pos w + 2 \<le> length (stream_buf w) \<and>
     w' = snd (stream_read 2 w)"
  by (auto simp: read_H_def and_then_Inl_iff read_exact_Inl_iff return_ok_def)

lemma read_I_Inr_iff:
  "read_I w = (Inr v, w') \<longleftrightarrow>
     stream_pos w + 4 \<le> length (stream_buf w) \<and>
     v = u32_at (stream_buf w) (stream_pos w) \<and>
     w' = w\<lparr>stream_pos := stream_pos w + 4\<rparr>"
  by (auto simp: read_I_def and_then_Inr_iff read_exact_Inr_iff return_ok_def u32_at_def)

lemma read_I_Inl_iff:
  "read_I w = (Inl e, w') \<longleftrightarrow>
     e = UnexpectedEOF \<and> \<not> stream_pos w + 4 \<le> length (stream_buf w) \<and>
     w' = snd (stream_read 4 w)"
  by (auto simp: read_I_def and_then_Inl_iff read_exact_Inl_iff return_ok_def)

lemma u16_at_bounds: "0 \<le> u16_at b off \<and> u16_at b off < 65536"
proof -
  have "\<And>bs. length bs \<le> 2 \<Longrightarrow> 0 \<le> unpack_le bs \<and> unpack_le bs < 65536"
  proof -
    fix bs :: "byte list" assume "length bs \<le> 2"
    then consider "bs = []" | x where "bs = [x]" | x y where "bs = [x, y]"
      by (cases bs rule: list.exhaust; simp; metis length_0_conv length_Suc_conv Suc_le_mono le_zero_eq list.exhaust list.size(3,4))
    then show "0 \<le> unpack_le bs \<and> unpack_le bs < 65536"
    proof cases
      case 1 then show ?thesis by simp
    next
      case 2
      have "uint x < 256" using uint_bounded[of x] by simp
      with 2 show ?thesis by simp
    next
      case 3
      have "uint x < 256" "uint y < 256" using uint_bounded[of x] uint_bounded[of y] by simp_all
      with 3 show ?thesis by simp
    qed
  qed
  then show ?thesis by (simp add: u16_at_def bytes_at_def)
qed

lemma sink_name:
  "dropWhile (\<lambda>c. c = os_sep) (map (\<lambda>c. if c = CHR ''/'' then os_sep else c) name) =
   dropWhile (\<lambda>c. c = CHR ''/'') name"
proof -
  have "map (\<lambda>c. if c = CHR ''/'' then os_sep else c) name = name"
    by (induction name) (simp_all add: os_sep_def)
  then show ?thesis by (simp add: os_sep_def)
qed

lemma save_to_file_eq:
  "save_to_file name content out w =
     (Inr (), w\<lparr>written := written w @
        [(os_path_join out (dropWhile (\<lambda>c. c = CHR ''/'') name), content)]\<rparr>)"
  by (simp add: save_to_file_def sink_name Let_def)

lemma parse_nv_Inr_D:
  assumes "parse_nv h out w = (Inr u, w')"
  defines "b \<equiv> stream_buf w" and "p \<equiv> stream_pos w"
  defines "d \<equiv> u16_at b (p + 2)"
  shows "1 \<le> d" and "p + 4 + nat d \<le> length b" and "12 + d = ih_length h"
    and "stream_pos w' = p + 4 + nat d" and "stream_buf w' = b"
    and "written w' = written w @
           [(os_path_join out (''NvItem__'' @ format_08d (u16_at b p)),
             bytes_at b (p + 5) (nat (d - 1)))]"
  using assms(1) unfolding b_def p_def d_def
  by (auto simp: parse_nv_def and_then_Inr_iff tell_def read_H_Inr_iff read_exact_Inr_iff
      save_to_file_eq raise_def Let_def nat_diff_distrib eval_nat_numeral split: if_splits)

lemma read_exact_run:
  "read_exact n w =
     (if 0 \<le> n \<and> (n = 0 \<or> stream_pos w + nat n \<le> length (stream_buf w))
      then (Inr (bytes_at (stream_buf w) (stream_pos w) (nat n)),
            w\<lparr>stream_pos := stream_pos w + nat n\<rparr>)
      else (Inl UnexpectedEOF, snd (stream_read n w)))"
  using read_exact_Inr_iff[of n w] read_exact_Inl_iff[of n w]
  by (cases "read_exact n w"; cases "fst (read_exact n w)") auto

lemma read_H_run:
  "read_H w =
     (if stream_pos w + 2 \<le> length (stream_buf w)
      then (Inr (u16_at (stream_buf w) (stream_pos w)), w\<lparr>stream_pos := stream_pos w + 2\<rparr>)
      else (Inl UnexpectedEOF, snd (stream_read 2 w)))"
  by (simp add: read_H_def and_then_def read_exact_run return_ok_def u16_at_def)

lemma parse_nv_fst:
  "fst (parse_nv h out w) =
     (let b = stream_buf w; p = stream_pos w; d = u16_at b (p + 2) in
      if \<not> p + 4 \<le> length b then Inl UnexpectedEOF
      else if \<not> (1 \<le> d \<and> p + 4 + nat d \<le> length b) then Inl UnexpectedEOF
      else if 12 + d \<noteq> ih_length h then Inl InvalidNvItemSize
      else Inr ())"
  by (auto simp: parse_nv_def and_then_def tell_def read_H_run read_exact_run
      save_to_file_eq raise_def Let_def nat_diff_distrib)

lemma parse_nv_Inl_written:
  "parse_nv h out w = (Inl e, w') \<Longrightarrow> written w' = written w \<and> stream_buf w' = stream_buf w"
  by (auto simp: parse_nv_def and_then_Inl_iff tell_def read_H_Inr_iff read_H_Inl_iff
      read_exact_Inr_iff read_exact_Inl_iff
      save_to_file_eq raise_def Let_def split: if_splits)

lemma and_then_Inl_fst:
  "fst (m w) = Inl e \<Longrightarrow> and_then m f w = (Inl e, snd (m w))"
  by (cases "m w") (simp add: and_then_def)

subsection \<open>Outcomes of the parsers\<close>

lemma wp_and_then: "wp (and_then m f) Q E w = wp m (\<lambda>x. wp (f x) Q E) E w"
  by (simp add: wp_def and_then_def split: prod.splits sum.splits)

lemma wp_tell: "wp tell Q E w = Q (stream_pos w) w"
  by (simp add: wp_def tell_def)

lemma wp_raise: "wp (raise e) Q E w = E e w"
  by (simp add: wp_def raise_def)

lemma wp_return_ok: "wp (return_ok x) Q E w = Q x w"
  by (simp add: wp_def return_ok_def)

lemma wp_if: "wp (if c then a else b) Q E w = (if c then wp a Q E w else wp b Q E w)"
  by simp

lemma wp_read_exact:
  "wp (read_exact n) Q E w =
     (if 0 \<le> n \<and> (n = 0 \<or> stream_pos w + nat n \<le> length (stream_buf w))
      then Q (bytes_at (stream_buf w) (stream_pos w) (nat n)) (w\<lparr>stream_pos := stream_pos w + nat n\<rparr>)
      else E UnexpectedEOF (snd (stream_read n w)))"
  by (auto simp: wp_def read_exact_run)

lemma wp_read_H:
  "wp read_H Q E w =
     (if stream_pos w + 2 \<le> length (stream_buf w)
      then Q (u16_at (stream_buf w) (stream_pos w)) (w\<lparr>stream_pos := stream_pos w + 2\<rparr>)
      else E UnexpectedEOF (snd (stream_read 2 w)))"
  by (simp add: wp_def read_H_run)

lemma wp_read_I:
  "wp read_I Q E w =
     (if stream_pos w + 4 \<le> length (stream_buf w)
      then Q (u32_at (stream_buf w) (stream_pos w)) (w\<lparr>stream_pos := stream_pos w + 4\<rparr>)
      else E UnexpectedEOF (snd (stream_read 4 w)))"
  by (simp add: wp_def read_I_def and_then_def read_exact_run return_ok_def u32_at_def)

lemma wp_save_to_file:
  "wp (save_to_file name content out) Q E w =
     Q () (w\<lparr>written := written w @
        [(os_path_join out (dropWhile (\<lambda>c. c = CHR ''/'') name), content)]\<rparr>)"
  by (simp add: wp_def save_to_file_eq)

lemma wp_Inr: "wp m Q E w \<Longrightarrow> m w = (Inr x, w') \<Longrightarrow> Q x w'"
  by (simp add: wp_def)

lemma wp_Inl: "wp m Q E w \<Longrightarrow> m w = (Inl e, w') \<Longrightarrow> E e w'"
  by (simp add: wp_def)

lemmas wp_simps = wp_and_then wp_tell wp_raise wp_return_ok wp_if wp_read_exact wp_read_H
  wp_read_I wp_save_to_file


lemma wp_find_magic_and_seek:
  "wp (find_magic_and_seek m) Q E w =
     (case bytes_find (drop (stream_pos w) (stream_buf w)) m of
        None \<Rightarrow> E MagicNotFound (snd (stream_read (- 1) w))
      | Some idx \<Rightarrow> Q () (w\<lparr>stream_pos := idx\<rparr>))"
  by (simp add: wp_def find_magic_and_seek_def stream_read_def Let_def split: option.splits)

lemma trailer_magic_text: "ascii_decode_ignore TRAILER_MAGIC = ''MCFG_TRL''"
  by code_simp

lemma parse_file_wp:
  "wp (parse_file h is_nv nx out)
     (\<lambda>u w'. let b = stream_buf w; p = stream_pos w; nl = nat (u16_at b (p + 2));
                 d = u16_at b (p + 6 + nl) in
        u16_at b p = 1 \<and> u16_at b (p + 4 + nl) = 2 \<and> 1 \<le> d \<and>
        p + 8 + nl + nat d \<le> length b \<and> 16 + int nl + d = ih_length h \<and>
        stream_pos w' = p + 8 + nl + nat d \<and> stream_buf w' = b \<and>
        written w' = written w @
           [(os_path_join out (dropWhile (\<lambda>c. c = CHR ''/'')
               (ascii_decode_ignore (bytes_at b (p + 4) (nl - 1)) @
                (if nx then [] else if is_nv then ''__E1FF_F'' else ''__81FF_0''))),
             bytes_at b (p + 9 + nl) (nat (d - 1)))])
     (\<lambda>e w'. written w' = written w \<and> stream_buf w' = stream_buf w \<and>
        e \<in> {UnexpectedEOF, InvalidFileHeaderMagic, InvalidFileSizeMagic, InvalidFileItemSize}) w"
  apply (simp add: parse_file_def wp_simps Let_def del: add_2_eq_Suc add_2_eq_Suc')
  apply (auto simp: add_ac nat_diff_distrib bytes_at_def ascii_decode_ignore_def min_def)
  done

lemma parse_nv_wp:
  "wp (parse_nv h out)
     (\<lambda>u w'. let b = stream_buf w; p = stream_pos w; d = u16_at b (p + 2) in
        1 \<le> d \<and> p + 4 + nat d \<le> length b \<and> 12 + d = ih_length h \<and>
        stream_pos w' = p + 4 + nat d \<and> stream_buf w' = b \<and>
        written w' = written w @
           [(os_path_join out (''NvItem__'' @ format_08d (u16_at b p)),
             bytes_at b (p + 5) (nat (d - 1)))])
     (\<lambda>e w'. written w' = written w \<and> stream_buf w' = stream_buf w \<and>
        e \<in> {UnexpectedEOF, InvalidNvItemSize}) w"
  apply (simp add: parse_nv_def wp_simps Let_def del: add_2_eq_Suc add_2_eq_Suc')
  apply (auto simp: add_ac nat_diff_distrib)
  done

lemma read_trailer_wp:
  "wp read_trailer
     (\<lambda>u w'. let b = stream_buf w; p = stream_pos w; dl = u16_at b (p + 10) in
        u16_at b (p + 4) = 10 \<and> u16_at b (p + 8) = 0xA1 \<and> 8 \<le> dl \<and>
        p + 4 + nat dl \<le> length b \<and>
        ascii_decode_ignore (bytes_at b (p + 12) (nat (dl - 8))) = ''MCFG_TRL'' \<and>
        stream_pos w' = p + 4 + nat dl \<and> stream_buf w' = b \<and> written w' = written w)
     (\<lambda>e w'. written w' = written w \<and> stream_buf w' = stream_buf w \<and>
        e \<in> {UnexpectedEOF, InvalidTrailerMagic1, InvalidTrailerMagic2, InvalidTrailerSize,
             InvalidTrailerMagicValue}) w"
  apply (simp add: read_trailer_def wp_simps Let_def trailer_magic_text del: add_2_eq_Suc add_2_eq_Suc')
  apply (auto simp: add_ac nat_diff_distrib bytes_at_def ascii_decode_ignore_def)
  done

lemma read_mcfg_header_wp:
  "wp read_mcfg_header
     (\<lambda>hd w'. let b = stream_buf w in
        \<exists>idx. bytes_find (drop (stream_pos w) b) MAGIC = Some idx \<and>
          idx + 24 \<le> length b \<and> u16_at b (idx + 16) = 4995 \<and> u16_at b (idx + 18) = 4 \<and>
          hd = \<lparr>magic = ascii_decode_ignore (bytes_at b idx 4),
                format_type = u16_at b (idx + 4),
                configuration_type = u16_at b (idx + 6),
                items_count = u32_at b (idx + 8),
                carrier_index = u16_at b (idx + 12),
                reserved = u16_at b (idx + 14),
                version = u32_at b (idx + 20)\<rparr> \<and>
          stream_pos w' = idx + 24 \<and> stream_buf w' = b \<and> written w' = written w)
     (\<lambda>e w'. written w' = written w \<and> stream_buf w' = stream_buf w \<and>
        e \<in> {UnexpectedEOF, MagicNotFound, InvalidVersionId, InvalidVersionSize}) w"
  apply (simp add: read_mcfg_header_def wp_simps wp_find_magic_and_seek Let_def MAGIC_def
      del: add_2_eq_Suc add_2_eq_Suc' split: option.splits)
  apply (auto simp: add_ac)
  done

lemma and_then_ok: "m w = (Inr x, w1) \<Longrightarrow> and_then m f w = f x w1"
  by (simp add: and_then_def)

lemma and_then_fail: "m w = (Inl e, w1) \<Longrightarrow> and_then m f w = (Inl e, w1)"
  by (simp add: and_then_def)

lemma and_then_tell: "and_then tell f w = f (stream_pos w) w"
  by (simp add: and_then_def tell_def)

lemma read_H_at:
  "k + 2 \<le> length (stream_buf w) \<Longrightarrow>
   read_H (w\<lparr>stream_pos := k\<rparr>) = (Inr (u16_at (stream_buf w) k), w\<lparr>stream_pos := k + 2\<rparr>)"
  by (simp add: read_H_run)

lemma read_exact_at:
  "k + n \<le> length (stream_buf w) \<Longrightarrow>
   read_exact (int n) (w\<lparr>stream_pos := k\<rparr>) =
     (Inr (bytes_at (stream_buf w) k n), w\<lparr>stream_pos := k + n\<rparr>)"
  by (simp add: read_exact_run)

lemma parse_file_ok:
  fixes w :: world
  defines "b \<equiv> stream_buf w" and "p \<equiv> stream_pos w"
  defines "nl \<equiv> nat (u16_at b (p + 2))"
  defines "d \<equiv> u16_at b (p + 6 + nl)"
  assumes m1: "u16_at b p = 1" and m2: "u16_at b (p + 4 + nl) = 2" and d1: "1 \<le> d"
    and len: "p + 8 + nl + nat d \<le> length b"
  shows "parse_file h is_nv nx out w =
     (if 16 + int nl + d \<noteq> ih_length h
      then (Inl InvalidFileItemSize, w\<lparr>stream_pos := p + 8 + nl + nat d\<rparr>)
      else (Inr (), w\<lparr>stream_pos := p + 8 + nl + nat d,
        written := written w @
           [(os_path_join out (dropWhile (\<lambda>c. c = CHR ''/'')
               (ascii_decode_ignore (bytes_at b (p + 4) (nl - 1)) @
                (if nx then [] else if is_nv then ''__E1FF_F'' else ''__81FF_0''))),
             bytes_at b (p + 9 + nl) (nat (d - 1)))]\<rparr>))"
proof -
  have nl0: "int nl = u16_at b (p + 2)"
    using u16_at_bounds[of b "p + 2"] by (simp add: nl_def)
  have w0: "w = w\<lparr>stream_pos := p\<rparr>" by (simp add: p_def)
  have r1: "read_H w = (Inr 1, w\<lparr>stream_pos := p + 2\<rparr>)"
    using read_H_at[of p w] len m1 by (simp add: b_def p_def)
  have r2: "read_H (w\<lparr>stream_pos := p + 2\<rparr>) = (Inr (int nl), w\<lparr>stream_pos := p + 4\<rparr>)"
    using read_H_at[of "p + 2" w] len nl0 by (simp add: b_def)
  have r3: "read_exact (int nl) (w\<lparr>stream_pos := p + 4\<rparr>) =
      (Inr (bytes_at b (p + 4) nl), w\<lparr>stream_pos := p + 4 + nl\<rparr>)"
    using read_exact_at[of "p + 4" nl w] len by (simp add: b_def)
  have r4: "read_H (w\<lparr>stream_pos := p + 4 + nl\<rparr>) = (Inr 2, w\<lparr>stream_pos := p + 6 + nl\<rparr>)"
    using read_H_at[of "p + 4 + nl" w] len m2 by (simp add: b_def)
  have r5: "read_H (w\<lparr>stream_pos := p + 6 + nl\<rparr>) = (Inr d, w\<lparr>stream_pos := p + 8 + nl\<rparr>)"
    using read_H_at[of "p + 6 + nl" w] len by (simp add: b_def d_def)
  have r6: "read_exact 1 (w\<lparr>stream_pos := p + 8 + nl\<rparr>) =
      (Inr (bytes_at b (p + 8 + nl) 1), w\<lparr>stream_pos := p + 9 + nl\<rparr>)"
    using read_exact_at[of "p + 8 + nl" 1 w] len d1 by (simp add: b_def)
  have r7: "read_exact (d - 1) (w\<lparr>stream_pos := p + 9 + nl\<rparr>) =
      (Inr (bytes_at b (p + 9 + nl) (nat (d - 1))), w\<lparr>stream_pos := p + 8 + nl + nat d\<rparr>)"
  proof -
    have "p + 9 + nl + nat (d - 1) = p + 8 + nl + nat d" using d1 by simp
    moreover have "int (nat (d - 1)) = d - 1" using d1 by simp
    ultimately show ?thesis
      using read_exact_at[of "p + 9 + nl" "nat (d - 1)" w] len by (simp add: b_def)
  qed
  have tk: "take (nl - 1) (bytes_at b (p + 4) nl) = bytes_at b (p + 4) (nl - 1)"
    by (simp add: bytes_at_def min_def)
  have nm: "(if 0 < int nl then ascii_decode_ignore (take (nat (max 0 (int nl - 1))) (bytes_at b (p + 4) nl)) else []) =
      ascii_decode_ignore (bytes_at b (p + 4) (nl - 1))"
    using tk by (cases "nl = 0") (simp_all add: nat_diff_distrib ascii_decode_ignore_def bytes_at_def)
  have t: "tell (w\<lparr>stream_pos := p + 8 + nl + nat d\<rparr>) = (Inr (p + 8 + nl + nat d), w\<lparr>stream_pos := p + 8 + nl + nat d\<rparr>)"
    by (simp add: tell_def)
  have rl: "int (stream_pos (w\<lparr>stream_pos := p + 8 + nl + nat d\<rparr>)) - int (stream_pos w) + 8 =
      16 + int nl + d"
    using d1 by (simp add: p_def)
  have "parse_file h is_nv nx out w =
     (if 16 + int nl + d \<noteq> ih_length h
      then raise InvalidFileItemSize (w\<lparr>stream_pos := p + 8 + nl + nat d\<rparr>)
      else save_to_file (ascii_decode_ignore (bytes_at b (p + 4) (nl - 1)) @
                (if nx then [] else if is_nv then ''__E1FF_F'' else ''__81FF_0''))
             (bytes_at b (p + 9 + nl) (nat (d - 1))) out (w\<lparr>stream_pos := p + 8 + nl + nat d\<rparr>))"
    unfolding parse_file_def
    apply (simp only: and_then_tell and_then_ok[of read_H, OF r1] and_then_ok[of read_H, OF r2] and_then_ok[of "read_exact (int nl)", OF r3]
        and_then_ok[of read_H, OF r4] and_then_ok[of read_H, OF r5] and_then_ok[of "read_exact 1", OF r6] and_then_ok[of "read_exact (d - 1)", OF r7]
        and_then_ok[of tell, OF t] Let_def nm rl
        simp_thms if_True if_False)
    apply (cases nx; cases is_nv; simp)
    done
  then show ?thesis
    by (simp add: raise_def save_to_file_eq)
qed

subsection \<open>Items, the loop and the image\<close>

lemma wp_mono:
  assumes "wp m Q' E' w"
    and "\<And>x w'. Q' x w' \<Longrightarrow> Q x w'"
    and "\<And>e w'. E' e w' \<Longrightarrow> E e w'"
  shows "wp m Q E w"
  using assms by (auto simp: wp_def split: prod.splits sum.splits)

lemma wp_fst: "wp m (\<lambda>x w'. P (Inr x)) (\<lambda>e w'. P (Inl e)) w = P (fst (m w))"
  by (auto simp: wp_def split: prod.splits sum.splits)

lemma wp_snd: "wp m (\<lambda>x w'. P w') (\<lambda>e w'. P w') w = P (snd (m w))"
  by (auto simp: wp_def split: prod.splits sum.splits)

lemma wp_result:
  "wp m Q E w = (case fst (m w) of Inr x \<Rightarrow> Q x (snd (m w)) | Inl e \<Rightarrow> E e (snd (m w)))"
  by (auto simp: wp_def split: prod.splits sum.splits)

lemma read_mcfg_header_bad_id:
  assumes "bytes_find (drop (stream_pos w) (stream_buf w)) MAGIC = Some idx"
    and "idx + 18 \<le> length (stream_buf w)"
    and "u16_at (stream_buf w) (idx + 16) \<noteq> 4995"
  shows "fst (read_mcfg_header w) = Inl InvalidVersionId"
proof -
  have "wp read_mcfg_header (\<lambda>x w'. False) (\<lambda>e w'. e = InvalidVersionId) w"
    using assms
    by (simp add: read_mcfg_header_def wp_simps wp_find_magic_and_seek Let_def MAGIC_def add_ac
      del: add_2_eq_Suc add_2_eq_Suc')
  then show ?thesis
    by (simp add: wp_result split: sum.splits)
qed

lemma read_mcfg_header_bad_size:
  assumes "bytes_find (drop (stream_pos w) (stream_buf w)) MAGIC = Some idx"
    and "idx + 20 \<le> length (stream_buf w)"
    and "u16_at (stream_buf w) (idx + 16) = 4995"
    and "u16_at (stream_buf w) (idx + 18) \<noteq> 4"
  shows "fst (read_mcfg_header w) = Inl InvalidVersionSize"
proof -
  have "wp read_mcfg_header (\<lambda>x w'. False) (\<lambda>e w'. e = InvalidVersionSize) w"
    using assms
    by (simp add: read_mcfg_header_def wp_simps wp_find_magic_and_seek Let_def MAGIC_def add_ac
      del: add_2_eq_Suc add_2_eq_Suc')
  then show ?thesis
    by (simp add: wp_result split: sum.splits)
qed

lemma read_trailer_bad_payload:
  assumes "u16_at (stream_buf w) (stream_pos w + 4) = 10"
    and "u16_at (stream_buf w) (stream_pos w + 8) = 0xA1"
    and "8 \<le> u16_at (stream_buf w) (stream_pos w + 10)"
    and "stream_pos w + 4 + nat (u16_at (stream_buf w) (stream_pos w + 10)) \<le> length (stream_buf w)"
    and "ascii_decode_ignore (bytes_at (stream_buf w) (stream_pos w + 12)
           (nat (u16_at (stream_buf w) (stream_pos w + 10) - 8))) \<noteq> ''MCFG_TRL''"
  shows "fst (read_trailer w) = Inl InvalidTrailerMagicValue"
proof -
  have "wp read_trailer (\<lambda>x w'. False) (\<lambda>e w'. e = InvalidTrailerMagicValue) w"
    using assms
    by (simp add: read_trailer_def wp_simps Let_def trailer_magic_text add_ac nat_diff_distrib
      del: add_2_eq_Suc add_2_eq_Suc')
  then show ?thesis
    by (simp add: wp_result split: sum.splits)
qed

lemma read_trailer_good:
  assumes "u16_at (stream_buf w) (stream_pos w + 4) = 10"
    and "u16_at (stream_buf w) (stream_pos w + 8) = 0xA1"
    and "8 \<le> u16_at (stream_buf w) (stream_pos w + 10)"
    and "stream_pos w + 4 + nat (u16_at (stream_buf w) (stream_pos w + 10)) \<le> length (stream_buf w)"
    and "ascii_decode_ignore (bytes_at (stream_buf w) (stream_pos w + 12)
           (nat (u16_at (stream_buf w) (stream_pos w + 10) - 8))) = ''MCFG_TRL''"
  shows "fst (read_trailer w) = Inr ()"
proof -
  have "wp read_trailer (\<lambda>x w'. True) (\<lambda>e w'. False) w"
    using assms
    by (simp add: read_trailer_def wp_simps Let_def trailer_magic_text add_ac nat_diff_distrib
      del: add_2_eq_Suc add_2_eq_Suc')
  then show ?thesis
    by (simp add: wp_result split: sum.splits)
qed

lemma wp_read_item_header:
  "wp read_item_header Q E w =
     (if stream_pos w + 8 \<le> length (stream_buf w)
      then Q \<lparr>ih_length = u32_at (stream_buf w) (stream_pos w),
              ih_type = unpack_le (bytes_at (stream_buf w) (stream_pos w + 4) 1),
              ih_attributes = unpack_le (bytes_at (stream_buf w) (stream_pos w + 5) 1),
              ih_reserved = u16_at (stream_buf w) (stream_pos w + 6)\<rparr>
             (w\<lparr>stream_pos := stream_pos w + 8\<rparr>)
      else E UnexpectedEOF (snd (stream_read 8 w)))"
proof -
  have a: "take 4 (bytes_at b p 8) = bytes_at b p 4" for b :: "byte list" and p
    by (simp add: bytes_at_def min_def)
  have b: "take (Suc 0) (drop 4 (bytes_at b p 8)) = bytes_at b (p + 4) (Suc 0)" for b :: "byte list" and p
    by (simp add: bytes_at_def min_def drop_take add.commute)
  have c: "take (Suc 0) (drop 5 (bytes_at b p 8)) = bytes_at b (p + 5) (Suc 0)" for b :: "byte list" and p
    by (simp add: bytes_at_def min_def drop_take add.commute)
  have d: "take 2 (drop 6 (bytes_at b p 8)) = bytes_at b (p + 6) 2" for b :: "byte list" and p
    by (simp add: bytes_at_def min_def drop_take add.commute)
  show ?thesis
    by (simp add: read_item_header_def wp_and_then wp_read_exact wp_return_ok a b c d
        u32_at_def u16_at_def)
qed


lemma parse_nv_wp_item:
  "wp (parse_nv h out)
     (\<lambda>u w'. stream_pos w' + 8 = stream_pos w + nat (ih_length h) \<and>
        stream_pos w' \<le> length (stream_buf w) \<and> stream_buf w' = stream_buf w \<and>
        (\<exists>f. written w' = written w @ [f]))
     (\<lambda>e w'. written w' = written w \<and> stream_buf w' = stream_buf w) w"
  by (rule wp_mono[OF parse_nv_wp]) (auto simp: Let_def)

lemma parse_file_wp_item:
  "wp (parse_file h is_nv nx out)
     (\<lambda>u w'. stream_pos w' + 8 = stream_pos w + nat (ih_length h) \<and>
        stream_pos w' \<le> length (stream_buf w) \<and> stream_buf w' = stream_buf w \<and>
        (\<exists>f. written w' = written w @ [f]))
     (\<lambda>e w'. written w' = written w \<and> stream_buf w' = stream_buf w) w"
  using u16_at_bounds[of "stream_buf w" "stream_pos w + 2"]
  apply (intro wp_mono[OF parse_file_wp])
   apply (auto simp: Let_def)
  apply arith
  done

lemma parse_item_wp:
  "wp (parse_item out nx)
     (\<lambda>u w'. stream_pos w + 8 \<le> length (stream_buf w) \<and>
        unpack_le (bytes_at (stream_buf w) (stream_pos w + 4) 1) \<in> {Nv, NvFile, File} \<and>
        stream_pos w' = stream_pos w + nat (u32_at (stream_buf w) (stream_pos w)) \<and>
        stream_pos w' \<le> length (stream_buf w) \<and>
        stream_buf w' = stream_buf w \<and>
        (\<exists>f. written w' = written w @ [f]))
     (\<lambda>e w'. written w' = written w \<and> stream_buf w' = stream_buf w) w"
  apply (simp add: parse_item_def wp_and_then wp_read_item_header wp_if wp_raise Let_def
      Nv_def NvFile_def File_def)
  apply (intro conjI impI)
    apply (rule wp_mono[OF parse_file_wp_item]; simp)
   apply (rule wp_mono[OF parse_file_wp_item]; simp)
  apply (rule wp_mono[OF parse_nv_wp_item]; simp)
  done

lemma parse_item_Inr:
  assumes "parse_item out nx w = (Inr u, w')"
  shows "stream_pos w + 8 \<le> length (stream_buf w)"
    and "unpack_le (bytes_at (stream_buf w) (stream_pos w + 4) 1) \<in> {Nv, NvFile, File}"
    and "stream_pos w' = stream_pos w + nat (u32_at (stream_buf w) (stream_pos w))"
    and "stream_pos w' \<le> length (stream_buf w)"
    and "stream_buf w' = stream_buf w"
    and "\<exists>f. written w' = written w @ [f]"
  using wp_Inr[OF parse_item_wp assms] by simp_all

lemma parse_item_Inl:
  assumes "parse_item out nx w = (Inl e, w')"
  shows "written w' = written w" and "stream_buf w' = stream_buf w"
  using wp_Inl[OF parse_item_wp assms] by simp_all

lemma parse_items_Inr:
  "parse_items n out nx w = (Inr u, w') \<Longrightarrow>
     stream_buf w' = stream_buf w \<and> length (written w') = length (written w) + n \<and>
     (\<exists>ws. length ws = Suc n \<and> ws ! 0 = w \<and> ws ! n = w' \<and>
        (\<forall>i<n. parse_item out nx (ws ! i) = (Inr (), ws ! Suc i)))"
proof (induction n arbitrary: w)
  case 0
  then have "w' = w" by (simp add: return_ok_def)
  then show ?case by (auto intro: exI[of _ "[w]"])
next
  case (Suc n)
  from Suc.prems obtain w1 where
    step: "parse_item out nx w = (Inr (), w1)" and
    rest: "parse_items n out nx w1 = (Inr u, w')"
    by (auto simp: and_then_Inr_iff)
  from Suc.IH[OF rest] obtain ws where
    buf: "stream_buf w' = stream_buf w1" and
    len: "length (written w') = length (written w1) + n" and
    ws: "length ws = Suc n" "ws ! 0 = w1" "ws ! n = w'"
      "\<forall>i<n. parse_item out nx (ws ! i) = (Inr (), ws ! Suc i)"
    by blast
  have "\<forall>i<Suc n. parse_item out nx ((w # ws) ! i) = (Inr (), (w # ws) ! Suc i)"
  proof (intro allI impI)
    fix i assume "i < Suc n"
    then show "parse_item out nx ((w # ws) ! i) = (Inr (), (w # ws) ! Suc i)"
      using step ws by (cases i) auto
  qed
  moreover have "length (w # ws) = Suc (Suc n)" "(w # ws) ! 0 = w" "(w # ws) ! Suc n = w'"
    using ws by simp_all
  ultimately have "\<exists>ws. length ws = Suc (Suc n) \<and> ws ! 0 = w \<and> ws ! Suc n = w' \<and>
        (\<forall>i<Suc n. parse_item out nx (ws ! i) = (Inr (), ws ! Suc i))"
    by blast
  moreover have "stream_buf w' = stream_buf w"
    using buf parse_item_Inr(5)[OF step] by simp
  moreover have "length (written w') = length (written w) + Suc n"
    using len parse_item_Inr(6)[OF step] by auto
  ultimately show ?case by blast
qed

lemma parse_items_Inl:
  "parse_items n out nx w = (Inl e, w') \<Longrightarrow>
     stream_buf w' = stream_buf w \<and> (\<exists>fs. written w' = written w @ fs \<and> length fs < n)"
proof (induction n arbitrary: w)
  case 0
  then show ?case by (simp add: return_ok_def)
next
  case (Suc n)
  from Suc.prems consider
    (a) "parse_item out nx w = (Inl e, w')"
    | (b) w1 where "parse_item out nx w = (Inr (), w1)" "parse_items n out nx w1 = (Inl e, w')"
    by (auto simp: and_then_Inl_iff)
  then show ?case
  proof cases
    case a
    then show ?thesis using parse_item_Inl[OF a] by simp
  next
    case b
    from Suc.IH[OF b(2)] parse_item_Inr(5,6)[OF b(1)] show ?thesis by auto
  qed
qed

lemma nat_max0: "nat (max 0 x) = nat x"
  by (simp add: max_def)

lemma parse_image_Inr:
  assumes "parse_image out nx w = (Inr u, w')"
  shows "\<exists>mh w1 w2. read_mcfg_header w = (Inr mh, w1) \<and> items_count mh \<noteq> 0 \<and>
     parse_items (nat (items_count mh - 1)) out nx w1 = (Inr (), w2) \<and>
     read_trailer w2 = (Inr (), w')"
  using assms
  by (auto simp: parse_image_def and_then_Inr_iff raise_def Let_def nat_max0 split: if_splits)

lemma parse_image_trailer:
  assumes "read_mcfg_header w = (Inr mh, w1)" and "items_count mh \<noteq> 0"
    and "parse_items (nat (items_count mh - 1)) out nx w1 = (Inr (), w2)"
  shows "parse_image out nx w = read_trailer w2"
  using assms by (simp add: parse_image_def and_then_def Let_def nat_max0)

lemma parse_image_zero:
  assumes "read_mcfg_header w = (Inr mh, w1)" and "items_count mh = 0"
  shows "parse_image out nx w = (Inl ZeroItemsCount, w1)"
  using assms by (simp add: parse_image_def and_then_def raise_def)

subsection \<open>Reading outcomes off the result\<close>

lemma unpack_le_nonneg: "0 \<le> unpack_le bs"
  by (induction bs) simp_all

lemma wp_fst_Inr: "wp m Q E w \<Longrightarrow> fst (m w) = Inr x \<Longrightarrow> Q x (snd (m w))"
  by (simp add: wp_result)

lemma wp_fst_Inl: "wp m Q E w \<Longrightarrow> fst (m w) = Inl e \<Longrightarrow> E e (snd (m w))"
  by (simp add: wp_result)

lemma wp_written:
  assumes "wp m (\<lambda>x w'. P w') (\<lambda>e w'. P w') w"
  shows "P (snd (m w))"
  using assms by (simp add: wp_snd)

lemma parse_nv_quiet: "fst (parse_nv h out w) = Inl e \<Longrightarrow> written (snd (parse_nv h out w)) = written w"
  using wp_fst_Inl[OF parse_nv_wp] by blast

lemma parse_file_quiet:
  "fst (parse_file h is_nv nx out w) = Inl e \<Longrightarrow>
   written (snd (parse_file h is_nv nx out w)) = written w"
  using wp_fst_Inl[OF parse_file_wp] by blast

lemma parse_file_fst_mismatch:
  assumes "u16_at (stream_buf w) (stream_pos w) = 1"
    and "u16_at (stream_buf w) (stream_pos w + 4 + nat (u16_at (stream_buf w) (stream_pos w + 2))) = 2"
    and "1 \<le> u16_at (stream_buf w) (stream_pos w + 6 + nat (u16_at (stream_buf w) (stream_pos w + 2)))"
    and "stream_pos w + 8 + nat (u16_at (stream_buf w) (stream_pos w + 2)) +
          nat (u16_at (stream_buf w) (stream_pos w + 6 + nat (u16_at (stream_buf w) (stream_pos w + 2))))
          \<le> length (stream_buf w)"
    and "16 + int (nat (u16_at (stream_buf w) (stream_pos w + 2))) +
          u16_at (stream_buf w) (stream_pos w + 6 + nat (u16_at (stream_buf w) (stream_pos w + 2)))
          \<noteq> ih_length h"
  shows "fst (parse_file h is_nv nx out w) = Inl InvalidFileItemSize"
  using parse_file_ok[OF assms(1-4), of h is_nv nx out] assms(5) by simp

lemma read_exact_negative: "sz < 0 \<Longrightarrow> fst (read_exact sz w) = Inl UnexpectedEOF"
  by (simp add: read_exact_run)

lemma pair_fst_snd: "fst r = a \<Longrightarrow> r = (a, snd r)"
  by (cases r) simp

lemma ascii_char_inj: "char_of (unat (a :: byte)) = char_of (unat b) \<longleftrightarrow> a = b"
proof -
  have "unat a < 256" "unat b < 256"
    using unsigned_less[of a, where 'a = nat] unsigned_less[of b, where 'a = nat] by simp_all
  then show ?thesis by (auto simp: word_unat_eq_iff)
qed

lemma ascii_decode_ignore_eq_iff:
  "ascii_decode_ignore xs = ascii_decode_ignore ys \<longleftrightarrow>
   filter (\<lambda>x. x < 128) xs = filter (\<lambda>x. x < 128) ys"
proof -
  have "inj (\<lambda>b :: byte. char_of (unat b))"
    using ascii_char_inj by (intro injI) blast
  then show ?thesis
    by (simp add: ascii_decode_ignore_def inj_map_eq_map)
qed

lemma trailer_magic_ascii: "filter (\<lambda>x. x < 128) TRAILER_MAGIC = TRAILER_MAGIC"
  by code_simp

lemma trailer_text_iff:
  "ascii_decode_ignore payload = ''MCFG_TRL'' \<longleftrightarrow>
   filter (\<lambda>x. x < 128) payload = TRAILER_MAGIC"
  using ascii_decode_ignore_eq_iff[of payload TRAILER_MAGIC]
  by (simp add: trailer_magic_text trailer_magic_ascii)

lemma read_trailer_quiet: "written (snd (read_trailer w)) = written w"
  by (rule wp_written) (rule wp_mono[OF read_trailer_wp]; simp add: Let_def)

subsection \<open>Decimal formatting, decoding and slices of a buffer\<close>

lemma decimal_value_snoc:
  "decimal_value (s @ [c]) = 10 * decimal_value s + (of_char c - 48)"
  by (simp add: decimal_value_def)

lemma decimal_value_decimal: "decimal_value (decimal n) = n"
proof (induction n rule: decimal.induct)
  case (1 n)
  show ?case
  proof (cases "n < 10")
    case True
    then show ?thesis
      by (subst decimal.simps) (simp add: decimal_value_def)
  next
    case False
    with 1 have IH: "decimal_value (decimal (n div 10)) = n div 10"
      by simp
    have "(of_char (char_of (48 + n mod 10)) :: nat) = 48 + n mod 10"
      by simp
    then show ?thesis
      using False by (subst decimal.simps) (simp add: decimal_value_snoc IH)
  qed
qed

lemma decimal_digits: "c \<in> set (decimal n) \<Longrightarrow> 48 \<le> (of_char c :: nat) \<and> (of_char c :: nat) \<le> 57"
proof (induction n rule: decimal.induct)
  case (1 n)
  show ?case
  proof (cases "n < 10")
    case True
    with "1.prems" have "c = char_of (48 + n)"
      by (subst (asm) decimal.simps) simp
    then show ?thesis using True by simp
  next
    case False
    with "1.prems" have "c \<in> set (decimal (n div 10)) \<or> c = char_of (48 + n mod 10)"
      by (subst (asm) decimal.simps) auto
    then show ?thesis
    proof
      assume "c \<in> set (decimal (n div 10))"
      with 1 False show ?thesis by simp
    next
      assume "c = char_of (48 + n mod 10)"
      moreover have "n mod 10 < 10" by simp
      ultimately show ?thesis by simp
    qed
  qed
qed

lemma length_decimal: "n < 10 ^ k \<Longrightarrow> 0 < k \<Longrightarrow> length (decimal n) \<le> k"
proof (induction n arbitrary: k rule: decimal.induct)
  case (1 n)
  show ?case
  proof (cases "n < 10")
    case True
    then show ?thesis using "1.prems"
      by (subst decimal.simps) simp
  next
    case False
    obtain j where k: "k = Suc j" using "1.prems"(2) by (cases k) auto
    have j0: "0 < j"
    proof (rule ccontr)
      assume "\<not> 0 < j"
      then have "k = 1" using k by simp
      with "1.prems"(1) False show False by simp
    qed
    have "n div 10 < 10 ^ j"
      using "1.prems"(1) k by (simp add: less_mult_imp_div_less mult.commute)
    from "1.IH"[OF False this j0] have "length (decimal (n div 10)) \<le> j" .
    then show ?thesis using False k
      by (subst decimal.simps) simp
  qed
qed

lemma decimal_value_zeros: "decimal_value (replicate k (CHR ''0'') @ s) = decimal_value s"
proof -
  have "foldl (\<lambda>acc c. 10 * acc + (of_char c - 48)) (0::nat) (replicate k (CHR ''0'')) = 0"
    by (induction k) simp_all
  then show ?thesis by (simp add: decimal_value_def)
qed

lemma format_08d_digits:
  assumes "0 \<le> n" and "n < 100000000"
  shows "length (format_08d n) = 8"
    and "\<forall>c \<in> set (format_08d n). 48 \<le> (of_char c :: nat) \<and> (of_char c :: nat) \<le> 57"
    and "int (decimal_value (format_08d n)) = n"
proof -
  have "nat n < 10 ^ 8" using assms by simp
  then have l: "length (decimal (nat n)) \<le> 8"
    by (rule length_decimal) simp
  show "length (format_08d n) = 8"
    using assms l by (simp add: format_08d_def zfill_def)
  show "\<forall>c \<in> set (format_08d n). 48 \<le> (of_char c :: nat) \<and> (of_char c :: nat) \<le> 57"
    using assms decimal_digits[of _ "nat n"] by (auto simp: format_08d_def zfill_def)
  show "int (decimal_value (format_08d n)) = n"
    using assms by (simp add: format_08d_def zfill_def decimal_value_zeros decimal_value_decimal)
qed

lemma os_path_join_plain:
  "b \<noteq> [] \<Longrightarrow> hd b \<noteq> CHR ''/'' \<Longrightarrow>
   os_path_join a b = (if a = [] \<or> last a = CHR ''/'' then a @ b else a @ ''/'' @ b)"
  by (cases b) (auto simp: os_path_join_def os_sep_def)

lemma ascii_decode_ignore_codes:
  "map of_char (ascii_decode_ignore bs) = map unat (filter (\<lambda>b. b < 128) bs)"
proof -
  have "(of_char (char_of (unat b)) :: nat) = unat b" for b :: byte
    using unsigned_less[of b, where 'a = nat] by simp
  then show ?thesis by (simp add: ascii_decode_ignore_def)
qed

lemma ascii_decode_ignore_length:
  "length (ascii_decode_ignore bs) + length (filter (\<lambda>b. \<not> b < 128) bs) = length bs"
  by (simp add: ascii_decode_ignore_def sum_length_filter_compl)

lemma bytes_at_append_left:
  "off + n \<le> length xs \<Longrightarrow> bytes_at (xs @ ys) off n = bytes_at xs off n"
  by (simp add: bytes_at_def)

lemma bytes_at_append_right:
  "bytes_at (xs @ ys) (length xs + k) n = bytes_at ys k n"
  by (simp add: bytes_at_def)

lemma u16_at_append_left:
  "off + 2 \<le> length xs \<Longrightarrow> u16_at (xs @ ys) off = u16_at xs off"
  by (simp add: u16_at_def bytes_at_append_left)

lemma u16_at_append_right:
  "u16_at (xs @ ys) (length xs + k) = u16_at ys k"
  by (simp add: u16_at_def bytes_at_append_right)

lemma format_08d_7: "format_08d 7 = ''00000007''"
  by code_simp

lemma parse_file_any_name:
  assumes buf: "stream_buf w = pre @ name @ post"
    and pre: "length pre = stream_pos w + 4"
    and m1: "u16_at pre (stream_pos w) = 1"
    and nl: "u16_at pre (stream_pos w + 2) = int (length name)"
    and m2: "u16_at post 0 = 2"
    and d1: "1 \<le> u16_at post 2"
    and len: "4 + nat (u16_at post 2) \<le> length post"
    and sz: "16 + int (length name) + u16_at post 2 = ih_length h"
  shows "parse_file h is_nv nx out w =
     (Inr (), w\<lparr>stream_pos := stream_pos w + 8 + length name + nat (u16_at post 2),
        written := written w @
           [(os_path_join out (dropWhile (\<lambda>c. c = CHR ''/'')
               (ascii_decode_ignore (butlast name) @
                (if nx then [] else if is_nv then ''__E1FF_F'' else ''__81FF_0''))),
             bytes_at post 5 (nat (u16_at post 2 - 1)))]\<rparr>)"
proof -
  let ?b = "stream_buf w" and ?p = "stream_pos w"
  have b2: "?b = (pre @ name) @ post" using buf by simp
  have lpn: "length (pre @ name) = ?p + 4 + length name" using pre by simp
  have f1: "u16_at ?b ?p = 1"
    using m1 pre by (simp add: buf u16_at_append_left)
  have f2: "u16_at ?b (?p + 2) = int (length name)"
    using nl pre by (simp add: buf u16_at_append_left)
  then have n: "nat (u16_at ?b (?p + 2)) = length name" by simp
  have right: "u16_at ?b (?p + 4 + length name + k) = u16_at post k" for k
    using u16_at_append_right[of "pre @ name" post k] pre by (simp add: b2 del: append_assoc)
  have rightb: "bytes_at ?b (?p + 4 + length name + k) m = bytes_at post k m" for k m
    using bytes_at_append_right[of "pre @ name" post k m] pre by (simp add: b2 del: append_assoc)
  have f3: "u16_at ?b (?p + 4 + length name) = 2"
    using right[of 0] m2 by simp
  have f4: "u16_at ?b (?p + 6 + length name) = u16_at post 2"
    using right[of 2] by (simp add: add.commute add.left_commute)
  have f5: "bytes_at ?b (?p + 9 + length name) m = bytes_at post 5 m" for m
    using rightb[of 5 m] by (simp add: add.commute add.left_commute)
  have f6: "bytes_at ?b (?p + 4) (length name - 1) = butlast name"
  proof -
    have "bytes_at ?b (?p + 4) (length name - 1) = bytes_at (name @ post) 0 (length name - 1)"
      using bytes_at_append_right[of pre "name @ post" 0 "length name - 1"] pre
      by (simp add: buf)
    also have "\<dots> = butlast name"
      by (simp add: bytes_at_def butlast_conv_take)
    finally show ?thesis .
  qed
  have l: "?p + 8 + length name + nat (u16_at post 2) \<le> length ?b"
    using len pre by (simp add: buf)
  have o2: "u16_at ?b (?p + 4 + nat (u16_at ?b (?p + 2))) = 2"
    using f3 by (simp only: n)
  have o3: "1 \<le> u16_at ?b (?p + 6 + nat (u16_at ?b (?p + 2)))"
    using d1 by (simp only: n f4)
  have o4: "?p + 8 + nat (u16_at ?b (?p + 2)) +
      nat (u16_at ?b (?p + 6 + nat (u16_at ?b (?p + 2)))) \<le> length ?b"
    using l by (simp only: n f4)
  note r = parse_file_ok[OF f1 o2 o3 o4, of h is_nv nx out]
  have "parse_file h is_nv nx out w =
     (if 16 + int (length name) + u16_at post 2 \<noteq> ih_length h
      then (Inl InvalidFileItemSize,
            w\<lparr>stream_pos := ?p + 8 + length name + nat (u16_at post 2)\<rparr>)
      else (Inr (), w\<lparr>stream_pos := ?p + 8 + length name + nat (u16_at post 2),
        written := written w @
           [(os_path_join out (dropWhile (\<lambda>c. c = CHR ''/'')
               (ascii_decode_ignore (butlast name) @
                (if nx then [] else if is_nv then ''__E1FF_F'' else ''__81FF_0''))),
             bytes_at post 5 (nat (u16_at post 2 - 1)))]\<rparr>))"
    using r by (simp only: n f4 f5 f6)
  then show ?thesis
    using sz by simp
qed

subsection \<open>The command line\<close>

lemma no_extra_unbound: "load_global ''no_extra'' = Inl (NameError ''no_extra'')"
  by (simp add: load_global_def module_globals_def)

lemma main_exit_status:
  "fst (main a env) =
     (if \<not> isfile env (abspath env (arg_input a)) then 2 else 1)"
  by (simp add: main_def Let_def no_extra_unbound split: option.splits)

section \<open>The claims\<close>

text \<open>
  C8. Every primitive field read returns exactly the number of bytes asked for, taken
  from the buffer at the cursor, or fails with the unexpected-EOF error; no shorter
  value is ever returned, and after a failed read the rest of the sequence is not run,
  so no later parsing step sees a partial field. The 16-bit and 32-bit field reads
  are instances.
\<close>

theorem read_exact_exact_or_eof:
  "fst (read_exact sz w) =
     (if 0 \<le> sz \<and> (sz = 0 \<or> stream_pos w + nat sz \<le> length (stream_buf w))
      then Inr (bytes_at (stream_buf w) (stream_pos w) (nat sz))
      else Inl UnexpectedEOF)
   \<and> (\<forall>data. fst (read_exact sz w) = Inr data \<longrightarrow> int (length data) = sz)
   \<and> (\<forall>e. fst (read_exact sz w) = Inl e \<longrightarrow>
         (\<forall>f. and_then (read_exact sz) f w = (Inl e, snd (read_exact sz w))))
   \<and> fst (read_H w) =
       (if stream_pos w + 2 \<le> length (stream_buf w)
        then Inr (u16_at (stream_buf w) (stream_pos w)) else Inl UnexpectedEOF)
   \<and> fst (read_I w) =
       (if stream_pos w + 4 \<le> length (stream_buf w)
        then Inr (u32_at (stream_buf w) (stream_pos w)) else Inl UnexpectedEOF)"
proof (intro conjI allI impI)
  show "fst (read_exact sz w) =
     (if 0 \<le> sz \<and> (sz = 0 \<or> stream_pos w + nat sz \<le> length (stream_buf w))
      then Inr (bytes_at (stream_buf w) (stream_pos w) (nat sz))
      else Inl UnexpectedEOF)"
    by (simp add: read_exact_run)
next
  fix data assume "fst (read_exact sz w) = Inr data"
  then show "int (length data) = sz"
    by (auto simp: read_exact_run bytes_at_def split: if_splits)
next
  fix e and f :: "byte list \<Rightarrow> 'b action"
  assume "fst (read_exact sz w) = Inl e"
  then show "and_then (read_exact sz) f w = (Inl e, snd (read_exact sz w))"
    by (rule and_then_Inl_fst)
next
  show "fst (read_H w) =
       (if stream_pos w + 2 \<le> length (stream_buf w)
        then Inr (u16_at (stream_buf w) (stream_pos w)) else Inl UnexpectedEOF)"
    by (simp add: read_H_run)
next
  show "fst (read_I w) =
       (if stream_pos w + 4 \<le> length (stream_buf w)
        then Inr (u32_at (stream_buf w) (stream_pos w)) else Inl UnexpectedEOF)"
    by (simp add: read_I_def and_then_def read_exact_run return_ok_def u32_at_def)
qed

theorem read_exact_exact_or_eof_witness:
  "fst (read_exact 2 \<lparr>stream_buf = [0x34], stream_pos = 0, written = []\<rparr>) = Inl UnexpectedEOF
   \<and> and_then (read_exact 2) (\<lambda>data. return_ok (unpack_le data))
        \<lparr>stream_buf = [0x34], stream_pos = 0, written = []\<rparr> =
       (Inl UnexpectedEOF, snd (read_exact 2 \<lparr>stream_buf = [0x34], stream_pos = 0, written = []\<rparr>))
   \<and> fst (read_H \<lparr>stream_buf = [0x34], stream_pos = 0, written = []\<rparr>) = Inl UnexpectedEOF"
  using read_exact_exact_or_eof [of 2 "\<lparr>stream_buf = [0x34], stream_pos = 0, written = []\<rparr>"]
  by auto

text \<open>
  C1. When an NV item or a file-shaped item (File or NvFile) is decoded, the bytes the
  decoder consumed plus the 8 bytes of the record header equal the length the record
  header declares. When all fields of the payload can be read but that sum differs
  from the declared length, decoding fails with the size-mismatch error of the item
  kind (\<open>InvalidNvItemSize\<close>, \<open>InvalidFileItemSize\<close>) and nothing is written.
\<close>

theorem item_span_equals_declared_length:
  fixes w :: world
  defines "b \<equiv> stream_buf w" and "p \<equiv> stream_pos w"
  defines "nl \<equiv> nat (u16_at b (p + 2))"
  shows
   "(fst (parse_nv h out w) = Inr () \<longrightarrow>
       int (stream_pos (snd (parse_nv h out w))) - int p + 8 = ih_length h)
    \<and> (fst (parse_file h is_nv nx out w) = Inr () \<longrightarrow>
       int (stream_pos (snd (parse_file h is_nv nx out w))) - int p + 8 = ih_length h)
    \<and> (1 \<le> u16_at b (p + 2) \<and> p + 4 + nat (u16_at b (p + 2)) \<le> length b \<and>
        8 + (4 + u16_at b (p + 2)) \<noteq> ih_length h \<longrightarrow>
       fst (parse_nv h out w) = Inl InvalidNvItemSize \<and>
       written (snd (parse_nv h out w)) = written w)
    \<and> (u16_at b p = 1 \<and> u16_at b (p + 4 + nl) = 2 \<and> 1 \<le> u16_at b (p + 6 + nl) \<and>
        p + 8 + nl + nat (u16_at b (p + 6 + nl)) \<le> length b \<and>
        8 + (8 + int nl + u16_at b (p + 6 + nl)) \<noteq> ih_length h \<longrightarrow>
       fst (parse_file h is_nv nx out w) = Inl InvalidFileItemSize \<and>
       written (snd (parse_file h is_nv nx out w)) = written w)"
proof (intro conjI impI)
  assume "fst (parse_nv h out w) = Inr ()"
  from wp_fst_Inr[OF parse_nv_wp this]
  show "int (stream_pos (snd (parse_nv h out w))) - int p + 8 = ih_length h"
    by (auto simp: Let_def p_def)
next
  assume "fst (parse_file h is_nv nx out w) = Inr ()"
  from wp_fst_Inr[OF parse_file_wp this]
  show "int (stream_pos (snd (parse_file h is_nv nx out w))) - int p + 8 = ih_length h"
    by (auto simp: Let_def p_def)
next
  assume a: "1 \<le> u16_at b (p + 2) \<and> p + 4 + nat (u16_at b (p + 2)) \<le> length b \<and>
        8 + (4 + u16_at b (p + 2)) \<noteq> ih_length h"
  then show e: "fst (parse_nv h out w) = Inl InvalidNvItemSize"
    by (simp add: parse_nv_fst Let_def b_def p_def)
  show "written (snd (parse_nv h out w)) = written w"
    by (rule parse_nv_quiet[OF e])
next
  assume a: "u16_at b p = 1 \<and> u16_at b (p + 4 + nl) = 2 \<and> 1 \<le> u16_at b (p + 6 + nl) \<and>
        p + 8 + nl + nat (u16_at b (p + 6 + nl)) \<le> length b \<and>
        8 + (8 + int nl + u16_at b (p + 6 + nl)) \<noteq> ih_length h"
  show e: "fst (parse_file h is_nv nx out w) = Inl InvalidFileItemSize"
    by (rule parse_file_fst_mismatch) (use a in \<open>simp_all add: b_def p_def nl_def\<close>)
  show "written (snd (parse_file h is_nv nx out w)) = written w"
    by (rule parse_file_quiet[OF e])
qed

theorem item_span_equals_declared_length_witness:
  "fst (parse_nv \<lparr>ih_length = 15, ih_type = 1, ih_attributes = 0, ih_reserved = 0\<rparr> ''out''
          (BytesIO sample_nv_payload)) = Inr ()
   \<and> int (stream_pos (snd (parse_nv \<lparr>ih_length = 15, ih_type = 1, ih_attributes = 0, ih_reserved = 0\<rparr>
          ''out'' (BytesIO sample_nv_payload)))) + 8 = 15
   \<and> fst (parse_nv \<lparr>ih_length = 16, ih_type = 1, ih_attributes = 0, ih_reserved = 0\<rparr> ''out''
          (BytesIO sample_nv_payload)) = Inl InvalidNvItemSize
   \<and> written (snd (parse_nv \<lparr>ih_length = 16, ih_type = 1, ih_attributes = 0, ih_reserved = 0\<rparr>
          ''out'' (BytesIO sample_nv_payload))) = []
   \<and> fst (parse_file \<lparr>ih_length = 22, ih_type = 4, ih_attributes = 0, ih_reserved = 0\<rparr>
          False False ''out'' (BytesIO sample_file_payload)) = Inr ()
   \<and> int (stream_pos (snd (parse_file \<lparr>ih_length = 22, ih_type = 4, ih_attributes = 0, ih_reserved = 0\<rparr>
          False False ''out'' (BytesIO sample_file_payload)))) + 8 = 22
   \<and> fst (parse_file \<lparr>ih_length = 23, ih_type = 4, ih_attributes = 0, ih_reserved = 0\<rparr>
          False False ''out'' (BytesIO sample_file_payload)) = Inl InvalidFileItemSize
   \<and> written (snd (parse_file \<lparr>ih_length = 23, ih_type = 4, ih_attributes = 0, ih_reserved = 0\<rparr>
          False False ''out'' (BytesIO sample_file_payload))) = []"
proof -
  let ?n15 = "\<lparr>ih_length = 15, ih_type = 1, ih_attributes = 0, ih_reserved = 0\<rparr>"
  let ?n16 = "\<lparr>ih_length = 16, ih_type = 1, ih_attributes = 0, ih_reserved = 0\<rparr>"
  let ?f22 = "\<lparr>ih_length = 22, ih_type = 4, ih_attributes = 0, ih_reserved = 0\<rparr>"
  let ?f23 = "\<lparr>ih_length = 23, ih_type = 4, ih_attributes = 0, ih_reserved = 0\<rparr>"
  let ?wn = "BytesIO sample_nv_payload"
  let ?wf = "BytesIO sample_file_payload"
  have p0: "stream_pos ?wn = 0" "stream_pos ?wf = 0" "written ?wn = []" "written ?wf = []"
    by (simp_all add: BytesIO_def)
  have nv_ok: "fst (parse_nv ?n15 ''out'' ?wn) = Inr ()"
    by code_simp
  have file_ok: "fst (parse_file ?f22 False False ''out'' ?wf) = Inr ()"
    by code_simp
  have nv_short: "1 \<le> u16_at (stream_buf ?wn) (stream_pos ?wn + 2) \<and>
      stream_pos ?wn + 4 + nat (u16_at (stream_buf ?wn) (stream_pos ?wn + 2)) \<le> length (stream_buf ?wn) \<and>
      8 + (4 + u16_at (stream_buf ?wn) (stream_pos ?wn + 2)) \<noteq> ih_length ?n16"
    by code_simp
  have file_short: "u16_at (stream_buf ?wf) (stream_pos ?wf) = 1 \<and>
      u16_at (stream_buf ?wf) (stream_pos ?wf + 4 + nat (u16_at (stream_buf ?wf) (stream_pos ?wf + 2))) = 2 \<and>
      1 \<le> u16_at (stream_buf ?wf) (stream_pos ?wf + 6 + nat (u16_at (stream_buf ?wf) (stream_pos ?wf + 2))) \<and>
      stream_pos ?wf + 8 + nat (u16_at (stream_buf ?wf) (stream_pos ?wf + 2)) +
        nat (u16_at (stream_buf ?wf) (stream_pos ?wf + 6 + nat (u16_at (stream_buf ?wf) (stream_pos ?wf + 2))))
        \<le> length (stream_buf ?wf) \<and>
      8 + (8 + int (nat (u16_at (stream_buf ?wf) (stream_pos ?wf + 2))) +
        u16_at (stream_buf ?wf) (stream_pos ?wf + 6 + nat (u16_at (stream_buf ?wf) (stream_pos ?wf + 2))))
        \<noteq> ih_length ?f23"
    by code_simp
  note a = item_span_equals_declared_length[where h = ?n15 and out = "''out''" and w = ?wn,
      THEN conjunct1, rule_format, OF nv_ok]
  note b = item_span_equals_declared_length[where h = ?n16 and out = "''out''" and w = ?wn,
      THEN conjunct2, THEN conjunct2, THEN conjunct1, rule_format, OF nv_short]
  note c = item_span_equals_declared_length[where h = ?f22 and out = "''out''" and w = ?wf
      and is_nv = False and nx = False,
      THEN conjunct2, THEN conjunct1, rule_format, OF file_ok]
  note d = item_span_equals_declared_length[where h = ?f23 and out = "''out''" and w = ?wf
      and is_nv = False and nx = False,
      THEN conjunct2, THEN conjunct2, THEN conjunct2, rule_format, OF file_short]
  show ?thesis
    using a b c d nv_ok file_ok by (simp add: p0)
qed

text \<open>
  C9. An item whose data-size field is 0 is never decoded. The data length becomes
  \<open>-1\<close>; the exact-read helper, asked for \<open>-1\<close> bytes, always reports the
  unexpected-EOF error. So \<open>parse_nv\<close> fails with that error whenever the size field
  is 0, \<open>parse_file\<close> fails whenever its size field is 0, and in both cases no file is
  written.
\<close>

theorem zero_data_size_never_decodes:
  fixes w :: world
  defines "b \<equiv> stream_buf w" and "p \<equiv> stream_pos w"
  shows
   "fst (read_exact (0 - 1) w) = Inl UnexpectedEOF
    \<and> (u16_at b (p + 2) = 0 \<longrightarrow>
         fst (parse_nv h out w) = Inl UnexpectedEOF \<and>
         written (snd (parse_nv h out w)) = written w)
    \<and> (u16_at b (p + 6 + nat (u16_at b (p + 2))) = 0 \<longrightarrow>
         (\<exists>e. fst (parse_file h is_nv nx out w) = Inl e) \<and>
         written (snd (parse_file h is_nv nx out w)) = written w)"
proof (intro conjI impI)
  show "fst (read_exact (0 - 1) w) = Inl UnexpectedEOF"
    by (simp add: read_exact_negative)
next
  assume z: "u16_at b (p + 2) = 0"
  then show e: "fst (parse_nv h out w) = Inl UnexpectedEOF"
    by (simp add: parse_nv_fst Let_def b_def p_def)
  show "written (snd (parse_nv h out w)) = written w"
    by (rule parse_nv_quiet[OF e])
next
  assume z: "u16_at b (p + 6 + nat (u16_at b (p + 2))) = 0"
  have "fst (parse_file h is_nv nx out w) \<noteq> Inr ()"
  proof
    assume "fst (parse_file h is_nv nx out w) = Inr ()"
    from wp_fst_Inr[OF parse_file_wp this] z show False
      by (simp add: Let_def b_def p_def)
  qed
  then obtain e where e: "fst (parse_file h is_nv nx out w) = Inl e"
    by (cases "fst (parse_file h is_nv nx out w)") auto
  then show "\<exists>e. fst (parse_file h is_nv nx out w) = Inl e" by blast
  show "written (snd (parse_file h is_nv nx out w)) = written w"
    by (rule parse_file_quiet[OF e])
qed

theorem zero_data_size_never_decodes_witness:
  "fst (parse_nv \<lparr>ih_length = 12, ih_type = 1, ih_attributes = 0, ih_reserved = 0\<rparr> ''out''
          (BytesIO sample_nv_payload_size0)) = Inl UnexpectedEOF
   \<and> written (snd (parse_nv \<lparr>ih_length = 12, ih_type = 1, ih_attributes = 0, ih_reserved = 0\<rparr>
          ''out'' (BytesIO sample_nv_payload_size0))) = []
   \<and> (\<exists>e. fst (parse_file \<lparr>ih_length = 20, ih_type = 4, ih_attributes = 0, ih_reserved = 0\<rparr>
          False False ''out'' (BytesIO sample_file_payload_size0)) = Inl e)
   \<and> written (snd (parse_file \<lparr>ih_length = 20, ih_type = 4, ih_attributes = 0, ih_reserved = 0\<rparr>
          False False ''out'' (BytesIO sample_file_payload_size0))) = []"
proof -
  let ?hn = "\<lparr>ih_length = 12, ih_type = 1, ih_attributes = 0, ih_reserved = 0\<rparr>"
  let ?hf = "\<lparr>ih_length = 20, ih_type = 4, ih_attributes = 0, ih_reserved = 0\<rparr>"
  let ?wn = "BytesIO sample_nv_payload_size0"
  let ?wf = "BytesIO sample_file_payload_size0"
  have w0: "written ?wn = []" "written ?wf = []"
    by (simp_all add: BytesIO_def)
  have zn: "u16_at (stream_buf ?wn) (stream_pos ?wn + 2) = 0"
    by code_simp
  have zf: "u16_at (stream_buf ?wf)
      (stream_pos ?wf + 6 + nat (u16_at (stream_buf ?wf) (stream_pos ?wf + 2))) = 0"
    by code_simp
  note a = zero_data_size_never_decodes[where h = ?hn and out = "''out''" and w = ?wn,
      THEN conjunct2, THEN conjunct1, rule_format, OF zn]
  note b = zero_data_size_never_decodes[where h = ?hf and out = "''out''" and w = ?wf
      and is_nv = False and nx = False,
      THEN conjunct2, THEN conjunct2, rule_format, OF zf]
  show ?thesis
    using a b by (simp add: w0)
qed

text \<open>
  C5. Header parsing succeeds only if the version id is 4995 and the version size is 4.
  When the magic is found and the version id can be read but is not 4995, header
  parsing fails with \<open>InvalidVersionId\<close>; when the version id is 4995 and the version
  size can be read but is not 4, it fails with \<open>InvalidVersionSize\<close>. When the header
  is read and its item count is 0, parsing the image fails with \<open>ZeroItemsCount\<close> in
  the state the header left: the cursor is just behind the header and nothing has been
  written.
\<close>

theorem header_constants_and_empty_container:
  fixes w :: world
  defines "b \<equiv> stream_buf w" and "p \<equiv> stream_pos w"
  shows
   "(fst (read_mcfg_header w) = Inr mh \<longrightarrow>
       (\<exists>idx. bytes_find (drop p b) MAGIC = Some idx \<and> idx + 24 \<le> length b \<and>
          u16_at b (idx + 16) = 4995 \<and> u16_at b (idx + 18) = 4 \<and>
          items_count mh = u32_at b (idx + 8)))
    \<and> (bytes_find (drop p b) MAGIC = Some idx \<and> idx + 18 \<le> length b \<and>
        u16_at b (idx + 16) \<noteq> 4995 \<longrightarrow>
       fst (read_mcfg_header w) = Inl InvalidVersionId)
    \<and> (bytes_find (drop p b) MAGIC = Some idx \<and> idx + 20 \<le> length b \<and>
        u16_at b (idx + 16) = 4995 \<and> u16_at b (idx + 18) \<noteq> 4 \<longrightarrow>
       fst (read_mcfg_header w) = Inl InvalidVersionSize)
    \<and> (fst (read_mcfg_header w) = Inr mh \<and> items_count mh = 0 \<longrightarrow>
       parse_image out nx w = (Inl ZeroItemsCount, snd (read_mcfg_header w)) \<and>
       written (snd (parse_image out nx w)) = written w)"
proof (intro conjI impI)
  assume "fst (read_mcfg_header w) = Inr mh"
  from wp_fst_Inr[OF read_mcfg_header_wp this]
  show "\<exists>idx. bytes_find (drop p b) MAGIC = Some idx \<and> idx + 24 \<le> length b \<and>
          u16_at b (idx + 16) = 4995 \<and> u16_at b (idx + 18) = 4 \<and>
          items_count mh = u32_at b (idx + 8)"
    by (auto simp: Let_def b_def p_def)
next
  assume "bytes_find (drop p b) MAGIC = Some idx \<and> idx + 18 \<le> length b \<and>
        u16_at b (idx + 16) \<noteq> 4995"
  then show "fst (read_mcfg_header w) = Inl InvalidVersionId"
    by (intro read_mcfg_header_bad_id[of w idx]) (simp_all add: b_def p_def)
next
  assume "bytes_find (drop p b) MAGIC = Some idx \<and> idx + 20 \<le> length b \<and>
        u16_at b (idx + 16) = 4995 \<and> u16_at b (idx + 18) \<noteq> 4"
  then show "fst (read_mcfg_header w) = Inl InvalidVersionSize"
    by (intro read_mcfg_header_bad_size[of w idx]) (simp_all add: b_def p_def)
next
  assume a: "fst (read_mcfg_header w) = Inr mh \<and> items_count mh = 0"
  then have r: "read_mcfg_header w = (Inr mh, snd (read_mcfg_header w))"
    by (metis prod.collapse)
  from parse_image_zero[OF r] a
  show z: "parse_image out nx w = (Inl ZeroItemsCount, snd (read_mcfg_header w))"
    by simp
  from wp_fst_Inr[OF read_mcfg_header_wp, of w mh] a
  have "written (snd (read_mcfg_header w)) = written w"
    by (auto simp: Let_def)
  then show "written (snd (parse_image out nx w)) = written w"
    by (simp add: z)
qed

theorem header_constants_and_empty_container_witness:
  "fst (read_mcfg_header (BytesIO sample_header_bad_id)) = Inl InvalidVersionId
   \<and> fst (read_mcfg_header (BytesIO sample_header_bad_size)) = Inl InvalidVersionSize
   \<and> fst (parse_image ''out'' False (BytesIO sample_header_zero_items)) = Inl ZeroItemsCount
   \<and> written (snd (parse_image ''out'' False (BytesIO sample_header_zero_items))) = []
   \<and> stream_pos (snd (parse_image ''out'' False (BytesIO sample_header_zero_items))) = 24
   \<and> (\<exists>idx. bytes_find (drop 0 sample_image) MAGIC = Some idx \<and>
        u16_at sample_image (idx + 16) = 4995 \<and> u16_at sample_image (idx + 18) = 4)"
proof -
  let ?wi = "BytesIO sample_header_bad_id"
  let ?ws = "BytesIO sample_header_bad_size"
  let ?wz = "BytesIO sample_header_zero_items"
  let ?wg = "BytesIO sample_image"
  let ?mz = "\<lparr>magic = ''MCFG'', format_type = 1, configuration_type = 2, items_count = 0,
      carrier_index = 0, reserved = 0, version = 16909060\<rparr>"
  let ?mg = "\<lparr>magic = ''MCFG'', format_type = 1, configuration_type = 2, items_count = 3,
      carrier_index = 0, reserved = 0, version = 16909060\<rparr>"
  have hi: "bytes_find (drop (stream_pos ?wi) (stream_buf ?wi)) MAGIC = Some 0 \<and>
      0 + 18 \<le> length (stream_buf ?wi) \<and> u16_at (stream_buf ?wi) (0 + 16) \<noteq> 4995"
    by code_simp
  have hs: "bytes_find (drop (stream_pos ?ws) (stream_buf ?ws)) MAGIC = Some 0 \<and>
      0 + 20 \<le> length (stream_buf ?ws) \<and> u16_at (stream_buf ?ws) (0 + 16) = 4995 \<and>
      u16_at (stream_buf ?ws) (0 + 18) \<noteq> 4"
    by code_simp
  have hz: "fst (read_mcfg_header ?wz) = Inr ?mz \<and> items_count ?mz = 0"
    by code_simp
  have pz: "stream_pos (snd (read_mcfg_header ?wz)) = 24"
    by code_simp
  have hg: "fst (read_mcfg_header ?wg) = Inr ?mg"
    by code_simp
  have g0: "stream_pos ?wg = 0" "stream_buf ?wg = sample_image" "written ?wz = []"
    by (simp_all add: BytesIO_def)
  note a = header_constants_and_empty_container[where w = ?wi and idx = 0,
      THEN conjunct2, THEN conjunct1, rule_format, OF hi]
  note b = header_constants_and_empty_container[where w = ?ws and idx = 0,
      THEN conjunct2, THEN conjunct2, THEN conjunct1, rule_format, OF hs]
  note c = header_constants_and_empty_container[where w = ?wz and mh = ?mz
      and out = "''out''" and nx = False,
      THEN conjunct2, THEN conjunct2, THEN conjunct2, rule_format, OF hz]
  note d = header_constants_and_empty_container[where w = ?wg and mh = ?mg,
      THEN conjunct1, rule_format, OF hg]
  from d have d': "\<exists>idx. bytes_find (drop 0 sample_image) MAGIC = Some idx \<and>
        u16_at sample_image (idx + 16) = 4995 \<and> u16_at sample_image (idx + 18) = 4"
    unfolding g0 by blast
  have z1: "fst (parse_image ''out'' False ?wz) = Inl ZeroItemsCount"
    using c[THEN conjunct1] by simp
  have z2: "stream_pos (snd (parse_image ''out'' False ?wz)) = 24"
    using c[THEN conjunct1] pz by simp
  have z3: "written (snd (parse_image ''out'' False ?wz)) = []"
    using c[THEN conjunct2] by (simp add: g0)
  show ?thesis
    using a b z1 z2 z3 d' by blast
qed

text \<open>
  C2. When parsing an image succeeds and the header declares \<open>N\<close> items, then
  \<open>N \<ge> 1\<close> and the run went through \<open>N\<close> states: the first is the state behind the
  header, each next one is reached by decoding exactly one item record from the state
  before it (\<open>N - 1\<close> records in all), and the trailer is read from the last one; every
  record writes one file, so \<open>N - 1\<close> files have been written. Whenever the header and
  the \<open>N - 1\<close> item records are read, the result of parsing the image is the result of
  reading the trailer from the state they leave: the trailer is never skipped.
\<close>

theorem dispatcher_reads_count_minus_one_items:
  "(fst (parse_image out nx w) = Inr () \<longrightarrow>
      (\<exists>mh ws. fst (read_mcfg_header w) = Inr mh \<and> 1 \<le> items_count mh \<and>
         length ws = nat (items_count mh) \<and> ws ! 0 = snd (read_mcfg_header w) \<and>
         (\<forall>i. Suc i < length ws \<longrightarrow> parse_item out nx (ws ! i) = (Inr (), ws ! Suc i)) \<and>
         read_trailer (last ws) = (Inr (), snd (parse_image out nx w)) \<and>
         length (written (snd (parse_image out nx w))) =
           length (written w) + (nat (items_count mh) - 1)))
    \<and> (fst (read_mcfg_header w) = Inr mh' \<and> items_count mh' \<noteq> 0 \<and>
        fst (parse_items (nat (items_count mh' - 1)) out nx (snd (read_mcfg_header w))) = Inr () \<longrightarrow>
       parse_image out nx w =
       read_trailer (snd (parse_items (nat (items_count mh' - 1)) out nx (snd (read_mcfg_header w)))))"
proof (intro conjI impI)
  let ?w' = "snd (parse_image out nx w)"
  assume "fst (parse_image out nx w) = Inr ()"
  then have "parse_image out nx w = (Inr (), ?w')"
    by (rule pair_fst_snd)
  from parse_image_Inr[OF this] obtain mh w1 w2 where
    h: "read_mcfg_header w = (Inr mh, w1)" and nz: "items_count mh \<noteq> 0" and
    it: "parse_items (nat (items_count mh - 1)) out nx w1 = (Inr (), w2)" and
    tr: "read_trailer w2 = (Inr (), ?w')"
    by blast
  from wp_Inr[OF read_mcfg_header_wp h] have
    ge: "0 \<le> items_count mh" and wr1: "written w1 = written w"
    by (auto simp: Let_def u32_at_def unpack_le_nonneg)
  from parse_items_Inr[OF it] obtain ws where
    len: "length (written w2) = length (written w1) + nat (items_count mh - 1)" and
    ws: "length ws = Suc (nat (items_count mh - 1))" "ws ! 0 = w1"
      "ws ! nat (items_count mh - 1) = w2"
      "\<forall>i<nat (items_count mh - 1). parse_item out nx (ws ! i) = (Inr (), ws ! Suc i)"
    by blast
  have one: "1 \<le> items_count mh" using ge nz by simp
  have l: "length ws = nat (items_count mh)" using ws(1) one by simp
  have la: "last ws = w2"
    using ws(1,3) by (metis diff_Suc_1 last_conv_nth length_0_conv nat.distinct(1))
  have wr2: "written ?w' = written w2"
    using read_trailer_quiet[of w2] tr by simp
  have "fst (read_mcfg_header w) = Inr mh" "ws ! 0 = snd (read_mcfg_header w)"
    using h ws(2) by simp_all
  moreover have "\<forall>i. Suc i < length ws \<longrightarrow> parse_item out nx (ws ! i) = (Inr (), ws ! Suc i)"
    using ws(1,4) by simp
  moreover have "read_trailer (last ws) = (Inr (), ?w')"
    using tr la by simp
  moreover have "length (written ?w') = length (written w) + (nat (items_count mh) - 1)"
    using wr2 len wr1 one by (simp add: nat_diff_distrib)
  ultimately show "\<exists>mh ws. fst (read_mcfg_header w) = Inr mh \<and> 1 \<le> items_count mh \<and>
         length ws = nat (items_count mh) \<and> ws ! 0 = snd (read_mcfg_header w) \<and>
         (\<forall>i. Suc i < length ws \<longrightarrow> parse_item out nx (ws ! i) = (Inr (), ws ! Suc i)) \<and>
         read_trailer (last ws) = (Inr (), snd (parse_image out nx w)) \<and>
         length (written (snd (parse_image out nx w))) =
           length (written w) + (nat (items_count mh) - 1)"
    using one l by blast
next
  let ?w1 = "snd (read_mcfg_header w)"
  let ?r = "parse_items (nat (items_count mh' - 1)) out nx ?w1"
  assume a: "fst (read_mcfg_header w) = Inr mh' \<and> items_count mh' \<noteq> 0 \<and> fst ?r = Inr ()"
  have h: "read_mcfg_header w = (Inr mh', ?w1)" and i: "?r = (Inr (), snd ?r)"
    using a by (simp_all add: pair_fst_snd)
  show "parse_image out nx w = read_trailer (snd ?r)"
    using parse_image_trailer[OF h _ i] a by simp
qed

theorem dispatcher_reads_count_minus_one_items_witness:
  "fst (parse_image ''out'' False (BytesIO sample_image)) = Inr ()
   \<and> (\<exists>mh ws. fst (read_mcfg_header (BytesIO sample_image)) = Inr mh \<and> 1 \<le> items_count mh \<and>
         length ws = nat (items_count mh) \<and> ws ! 0 = snd (read_mcfg_header (BytesIO sample_image)) \<and>
         (\<forall>i. Suc i < length ws \<longrightarrow> parse_item ''out'' False (ws ! i) = (Inr (), ws ! Suc i)) \<and>
         read_trailer (last ws) = (Inr (), snd (parse_image ''out'' False (BytesIO sample_image))) \<and>
         length (written (snd (parse_image ''out'' False (BytesIO sample_image)))) =
           nat (items_count mh) - 1)
   \<and> u32_at sample_image 12 = 3
   \<and> length (written (snd (parse_image ''out'' False (BytesIO sample_image)))) = 2
   \<and> parse_image ''out'' False (BytesIO sample_image) =
       read_trailer (snd (parse_items 2 ''out'' False (snd (read_mcfg_header (BytesIO sample_image)))))"
proof -
  let ?w = "BytesIO sample_image"
  have ok: "fst (parse_image ''out'' False ?w) = Inr ()"
    by code_simp
  have n: "u32_at sample_image 12 = 3"
    by code_simp
  have l: "length (written (snd (parse_image ''out'' False ?w))) = 2"
    by code_simp
  have w0: "written ?w = []"
    by (simp add: BytesIO_def)
  let ?mh = "\<lparr>magic = ''MCFG'', format_type = 1, configuration_type = 2, items_count = 3,
      carrier_index = 0, reserved = 0, version = 16909060\<rparr>"
  have hi: "fst (read_mcfg_header ?w) = Inr ?mh \<and> items_count ?mh \<noteq> 0 \<and>
      fst (parse_items (nat (items_count ?mh - 1)) ''out'' False (snd (read_mcfg_header ?w))) = Inr ()"
    by code_simp
  note a = dispatcher_reads_count_minus_one_items[where w = ?w and out = "''out''" and nx = False,
      THEN conjunct1, rule_format, OF ok]
  note b = dispatcher_reads_count_minus_one_items[where w = ?w and out = "''out''" and nx = False
      and mh' = ?mh, THEN conjunct2, rule_format, OF hi]
  have b': "parse_image ''out'' False ?w =
       read_trailer (snd (parse_items 2 ''out'' False (snd (read_mcfg_header ?w))))"
    using b by simp
  show ?thesis
    using a ok n l b' unfolding w0 by simp
qed

text \<open>
  C3, as the code has it. The trailer is accepted exactly when magic1 is 10, magic2 is
  0xA1, the data length is at least 8, the \<open>data_length - 8\<close> payload bytes are in the
  buffer, and the payload without its bytes above 127 is \<^verbatim>\<open>MCFG_TRL\<close> (such bytes are
  dropped before the comparison). When the fields before the payload are valid and the
  payload is present but, without its bytes above 127, differs from \<^verbatim>\<open>MCFG_TRL\<close>, the
  trailer fails with \<open>InvalidTrailerMagicValue\<close>. Reading the trailer never changes
  the files written, whatever its outcome, so after the header and the items have been
  read the files written by the items are those the whole run leaves.
\<close>

theorem trailer_validation:
  fixes w :: world
  defines "b \<equiv> stream_buf w" and "p \<equiv> stream_pos w"
  defines "dl \<equiv> u16_at b (p + 10)"
  defines "payload \<equiv> bytes_at b (p + 12) (nat (dl - 8))"
  shows
   "(fst (read_trailer w) = Inr () \<longleftrightarrow>
       u16_at b (p + 4) = 10 \<and> u16_at b (p + 8) = 0xA1 \<and> 8 \<le> dl \<and>
       p + 4 + nat dl \<le> length b \<and> filter (\<lambda>x. x < 128) payload = TRAILER_MAGIC)
    \<and> (u16_at b (p + 4) = 10 \<and> u16_at b (p + 8) = 0xA1 \<and> 8 \<le> dl \<and>
        p + 4 + nat dl \<le> length b \<and> filter (\<lambda>x. x < 128) payload \<noteq> TRAILER_MAGIC \<longrightarrow>
       fst (read_trailer w) = Inl InvalidTrailerMagicValue)
    \<and> written (snd (read_trailer w)) = written w
    \<and> (fst (read_mcfg_header w0) = Inr mh \<and> items_count mh \<noteq> 0 \<and>
        fst (parse_items (nat (items_count mh - 1)) out nx (snd (read_mcfg_header w0))) = Inr () \<longrightarrow>
       written (snd (parse_image out nx w0)) =
       written (snd (parse_items (nat (items_count mh - 1)) out nx (snd (read_mcfg_header w0)))))"
proof -
  let ?ok = "u16_at b (p + 4) = 10 \<and> u16_at b (p + 8) = 0xA1 \<and> 8 \<le> dl \<and>
       p + 4 + nat dl \<le> length b"
  have fwd: "?ok \<and> filter (\<lambda>x. x < 128) payload = TRAILER_MAGIC"
    if "fst (read_trailer w) = Inr ()"
    using wp_fst_Inr[OF read_trailer_wp that]
    by (simp add: Let_def b_def p_def dl_def payload_def trailer_text_iff)
  have bwd: "fst (read_trailer w) = Inr ()"
    if "?ok \<and> filter (\<lambda>x. x < 128) payload = TRAILER_MAGIC"
    using that
    by (intro read_trailer_good) (simp_all add: b_def p_def dl_def payload_def trailer_text_iff)
  have bad: "fst (read_trailer w) = Inl InvalidTrailerMagicValue"
    if "?ok \<and> filter (\<lambda>x. x < 128) payload \<noteq> TRAILER_MAGIC"
    using that
    by (intro read_trailer_bad_payload)
      (simp_all add: b_def p_def dl_def payload_def trailer_text_iff)
  have img: "written (snd (parse_image out nx w0)) =
       written (snd (parse_items (nat (items_count mh - 1)) out nx (snd (read_mcfg_header w0))))"
    if a: "fst (read_mcfg_header w0) = Inr mh \<and> items_count mh \<noteq> 0 \<and>
        fst (parse_items (nat (items_count mh - 1)) out nx (snd (read_mcfg_header w0))) = Inr ()"
  proof -
    let ?w1 = "snd (read_mcfg_header w0)"
    let ?r = "parse_items (nat (items_count mh - 1)) out nx ?w1"
    have h: "read_mcfg_header w0 = (Inr mh, ?w1)" and i: "?r = (Inr (), snd ?r)"
      using a by (simp_all add: pair_fst_snd)
    have "parse_image out nx w0 = read_trailer (snd ?r)"
      using parse_image_trailer[OF h _ i] a by simp
    then show ?thesis
      by (simp add: read_trailer_quiet)
  qed
  show ?thesis
    using fwd bwd bad img read_trailer_quiet[of w] by blast
qed

theorem trailer_validation_witness:
  "fst (read_trailer (BytesIO sample_trailer)) = Inr ()
   \<and> fst (read_trailer (BytesIO sample_trailer_padded)) = Inr ()
   \<and> fst (read_trailer (BytesIO sample_trailer_replaced)) = Inl InvalidTrailerMagicValue
   \<and> written (snd (read_trailer (BytesIO sample_trailer_replaced))) = []
   \<and> fst (parse_image ''out'' False (BytesIO sample_image_tampered_trailer)) =
       Inl InvalidTrailerMagicValue
   \<and> map fst (written (snd (parse_image ''out'' False (BytesIO sample_image_tampered_trailer)))) =
       [''out/NvItem__00000007'', ''out/abc__81FF_0'']"
proof -
  let ?wt = "BytesIO sample_trailer"
  let ?wp = "BytesIO sample_trailer_padded"
  let ?wr = "BytesIO sample_trailer_replaced"
  let ?wi = "BytesIO sample_image_tampered_trailer"
  let ?mh = "\<lparr>magic = ''MCFG'', format_type = 1, configuration_type = 2, items_count = 3,
      carrier_index = 0, reserved = 0, version = 16909060\<rparr>"
  have ht: "u16_at (stream_buf ?wt) (stream_pos ?wt + 4) = 10 \<and>
      u16_at (stream_buf ?wt) (stream_pos ?wt + 8) = 0xA1 \<and>
      8 \<le> u16_at (stream_buf ?wt) (stream_pos ?wt + 10) \<and>
      stream_pos ?wt + 4 + nat (u16_at (stream_buf ?wt) (stream_pos ?wt + 10)) \<le> length (stream_buf ?wt) \<and>
      filter (\<lambda>x. x < 128) (bytes_at (stream_buf ?wt) (stream_pos ?wt + 12)
        (nat (u16_at (stream_buf ?wt) (stream_pos ?wt + 10) - 8))) = TRAILER_MAGIC"
    by code_simp
  have hp: "u16_at (stream_buf ?wp) (stream_pos ?wp + 4) = 10 \<and>
      u16_at (stream_buf ?wp) (stream_pos ?wp + 8) = 0xA1 \<and>
      8 \<le> u16_at (stream_buf ?wp) (stream_pos ?wp + 10) \<and>
      stream_pos ?wp + 4 + nat (u16_at (stream_buf ?wp) (stream_pos ?wp + 10)) \<le> length (stream_buf ?wp) \<and>
      filter (\<lambda>x. x < 128) (bytes_at (stream_buf ?wp) (stream_pos ?wp + 12)
        (nat (u16_at (stream_buf ?wp) (stream_pos ?wp + 10) - 8))) = TRAILER_MAGIC"
    by code_simp
  have hr: "u16_at (stream_buf ?wr) (stream_pos ?wr + 4) = 10 \<and>
      u16_at (stream_buf ?wr) (stream_pos ?wr + 8) = 0xA1 \<and>
      8 \<le> u16_at (stream_buf ?wr) (stream_pos ?wr + 10) \<and>
      stream_pos ?wr + 4 + nat (u16_at (stream_buf ?wr) (stream_pos ?wr + 10)) \<le> length (stream_buf ?wr) \<and>
      filter (\<lambda>x. x < 128) (bytes_at (stream_buf ?wr) (stream_pos ?wr + 12)
        (nat (u16_at (stream_buf ?wr) (stream_pos ?wr + 10) - 8))) \<noteq> TRAILER_MAGIC"
    by code_simp
  have hi: "fst (read_mcfg_header ?wi) = Inr ?mh \<and> items_count ?mh \<noteq> 0 \<and>
      fst (parse_items (nat (items_count ?mh - 1)) ''out'' False (snd (read_mcfg_header ?wi))) = Inr ()"
    by code_simp
  have files: "map fst (written (snd (parse_items (nat (items_count ?mh - 1)) ''out'' False
      (snd (read_mcfg_header ?wi))))) = [''out/NvItem__00000007'', ''out/abc__81FF_0'']"
    by code_simp
  have fail: "fst (parse_image ''out'' False ?wi) = Inl InvalidTrailerMagicValue"
    by code_simp
  have w0: "written ?wr = []"
    by (simp add: BytesIO_def)
  note a = trailer_validation[where w = ?wt, THEN conjunct1, THEN iffD2, OF ht]
  note b = trailer_validation[where w = ?wp, THEN conjunct1, THEN iffD2, OF hp]
  note c = trailer_validation[where w = ?wr, THEN conjunct2, THEN conjunct1, rule_format, OF hr]
  note d = trailer_validation[where w = ?wr, THEN conjunct2, THEN conjunct2, THEN conjunct1]
  note e = trailer_validation[where w0 = ?wi and mh = ?mh and out = "''out''" and nx = False,
      THEN conjunct2, THEN conjunct2, THEN conjunct2, rule_format, OF hi]
  show ?thesis
    using a b c d e files fail by (simp add: w0)
qed

text \<open>
  The claim C3 as the specification states it does not hold: a trailer whose payload
  is the nine bytes \<^verbatim>\<open>MCFG\<close>, 0x80, \<^verbatim>\<open>_TRL\<close> (data length 17) is accepted, although
  its payload is not the eight bytes \<^verbatim>\<open>MCFG_TRL\<close>.
\<close>

theorem trailer_padded_payload_accepted:
  "fst (read_trailer (BytesIO sample_trailer_padded)) = Inr ()
   \<and> bytes_at sample_trailer_padded 12 9 \<noteq> TRAILER_MAGIC
   \<and> u16_at sample_trailer_padded 10 - 8 = 9"
  by code_simp

text \<open>
  C6. When an NV item is decoded, one file is written: its path is the output
  directory joined with \<^verbatim>\<open>NvItem__\<close> followed by the \<^verbatim>\<open>08d\<close> format of the item's
  \<open>nv_id\<close>, and its content is the item's data bytes as they stand in the buffer
  (\<open>declared size - 1\<close> bytes behind the data magic). The formatted id has exactly 8
  characters, all decimal digits, and denotes \<open>nv_id\<close>; for \<open>nv_id = 7\<close> it is
  \<^verbatim>\<open>00000007\<close>. The join puts the name behind the directory, with one separator
  between them when the directory does not end in one.
\<close>

theorem nv_item_output_name_and_content:
  fixes w :: world
  defines "b \<equiv> stream_buf w" and "p \<equiv> stream_pos w"
  shows
   "(fst (parse_nv h out w) = Inr () \<longrightarrow>
       written (snd (parse_nv h out w)) =
         written w @ [(os_path_join out (''NvItem__'' @ format_08d (u16_at b p)),
                       bytes_at b (p + 5) (nat (u16_at b (p + 2) - 1)))] \<and>
       length (bytes_at b (p + 5) (nat (u16_at b (p + 2) - 1))) = nat (u16_at b (p + 2) - 1))
    \<and> os_path_join out (''NvItem__'' @ s) =
        (if out = [] \<or> last out = CHR ''/'' then out @ ''NvItem__'' @ s
         else out @ ''/NvItem__'' @ s)
    \<and> length (format_08d (u16_at b p)) = 8
    \<and> (\<forall>c \<in> set (format_08d (u16_at b p)). 48 \<le> (of_char c :: nat) \<and> (of_char c :: nat) \<le> 57)
    \<and> int (decimal_value (format_08d (u16_at b p))) = u16_at b p
    \<and> format_08d 7 = ''00000007''"
proof -
  have r: "0 \<le> u16_at b p" "u16_at b p < 100000000"
    using u16_at_bounds[of b p] by simp_all
  have a: "written (snd (parse_nv h out w)) =
         written w @ [(os_path_join out (''NvItem__'' @ format_08d (u16_at b p)),
                       bytes_at b (p + 5) (nat (u16_at b (p + 2) - 1)))] \<and>
       length (bytes_at b (p + 5) (nat (u16_at b (p + 2) - 1))) = nat (u16_at b (p + 2) - 1)"
    if "fst (parse_nv h out w) = Inr ()"
    using wp_fst_Inr[OF parse_nv_wp that]
    by (auto simp: Let_def b_def p_def bytes_at_def)
  have j: "os_path_join out (''NvItem__'' @ s) =
        (if out = [] \<or> last out = CHR ''/'' then out @ ''NvItem__'' @ s
         else out @ ''/NvItem__'' @ s)"
    using os_path_join_plain[of "''NvItem__'' @ s" out] by simp
  show ?thesis
    using a j format_08d_digits[OF r] format_08d_7 by blast
qed

theorem nv_item_output_name_and_content_witness:
  "written (snd (parse_nv \<lparr>ih_length = 15, ih_type = 1, ih_attributes = 0, ih_reserved = 0\<rparr>
      ''out'' (BytesIO sample_nv_payload))) = [(''out/NvItem__00000007'', [0xAA, 0xBB])]
   \<and> u16_at sample_nv_payload 0 = 7"
proof -
  let ?h = "\<lparr>ih_length = 15, ih_type = 1, ih_attributes = 0, ih_reserved = 0\<rparr>"
  let ?w = "BytesIO sample_nv_payload"
  have ok: "fst (parse_nv ?h ''out'' ?w) = Inr ()"
    by code_simp
  have ev: "written ?w @ [(os_path_join ''out'' (''NvItem__'' @
        format_08d (u16_at (stream_buf ?w) (stream_pos ?w))),
      bytes_at (stream_buf ?w) (stream_pos ?w + 5)
        (nat (u16_at (stream_buf ?w) (stream_pos ?w + 2) - 1)))] =
      [(''out/NvItem__00000007'', [0xAA, 0xBB])]"
    by code_simp
  have id: "u16_at sample_nv_payload 0 = 7"
    by code_simp
  note a = nv_item_output_name_and_content[where h = ?h and out = "''out''" and w = ?w,
      THEN conjunct1, rule_format, OF ok, THEN conjunct1]
  show ?thesis
    using a ev id by simp
qed

text \<open>
  C7. When a file-shaped item with decoded name \<open>n\<close> is decoded, the files written
  are those that \<^verbatim>\<open>_save_to_file\<close> leaves when called with the item's data and the
  name \<open>n @ ''__81FF_0''\<close> for a File item, \<open>n @ ''__E1FF_F''\<close> for an NvFile item,
  both with the suffix enabled, and with the name \<open>n\<close> alone for either kind when the
  suffix is suppressed. \<^verbatim>\<open>_save_to_file\<close> adds one file, whose path is the output
  directory joined with that name without leading separators.
\<close>

theorem file_item_output_name:
  fixes w :: world
  defines "b \<equiv> stream_buf w" and "p \<equiv> stream_pos w"
  defines "nl \<equiv> nat (u16_at b (p + 2))"
  defines "n \<equiv> ascii_decode_ignore (bytes_at b (p + 4) (nl - 1))"
  defines "content \<equiv> bytes_at b (p + 9 + nl) (nat (u16_at b (p + 6 + nl) - 1))"
  shows
   "(fst (parse_file h False False out w) = Inr () \<longrightarrow>
       written (snd (parse_file h False False out w)) =
       written (snd (save_to_file (n @ ''__81FF_0'') content out w)))
    \<and> (fst (parse_file h True False out w) = Inr () \<longrightarrow>
       written (snd (parse_file h True False out w)) =
       written (snd (save_to_file (n @ ''__E1FF_F'') content out w)))
    \<and> (fst (parse_file h is_nv True out w) = Inr () \<longrightarrow>
       written (snd (parse_file h is_nv True out w)) =
       written (snd (save_to_file n content out w)))
    \<and> written (snd (save_to_file name content out w)) =
        written w @ [(os_path_join out (dropWhile (\<lambda>c. c = CHR ''/'') name), content)]"
proof -
  have a: "written (snd (parse_file h is_nv nx out w)) =
       written (snd (save_to_file
         (n @ (if nx then [] else if is_nv then ''__E1FF_F'' else ''__81FF_0'')) content out w))"
    if "fst (parse_file h is_nv nx out w) = Inr ()" for is_nv nx
    using wp_fst_Inr[OF parse_file_wp that]
    by (simp add: Let_def b_def p_def nl_def n_def content_def save_to_file_eq)
  show ?thesis
    using a[of False False] a[of True False] a[of is_nv True]
    by (simp add: save_to_file_eq)
qed

theorem file_item_output_name_witness:
  "map fst (written (snd (parse_file \<lparr>ih_length = 22, ih_type = 4, ih_attributes = 0, ih_reserved = 0\<rparr>
      False False ''out'' (BytesIO sample_file_payload)))) = [''out/abc__81FF_0'']
   \<and> map fst (written (snd (parse_file \<lparr>ih_length = 22, ih_type = 2, ih_attributes = 0, ih_reserved = 0\<rparr>
      True False ''out'' (BytesIO sample_file_payload)))) = [''out/abc__E1FF_F'']
   \<and> map fst (written (snd (parse_file \<lparr>ih_length = 22, ih_type = 4, ih_attributes = 0, ih_reserved = 0\<rparr>
      False True ''out'' (BytesIO sample_file_payload)))) = [''out/abc'']
   \<and> map fst (written (snd (parse_file \<lparr>ih_length = 22, ih_type = 2, ih_attributes = 0, ih_reserved = 0\<rparr>
      True True ''out'' (BytesIO sample_file_payload)))) = [''out/abc'']"
proof -
  let ?h4 = "\<lparr>ih_length = 22, ih_type = 4, ih_attributes = 0, ih_reserved = 0\<rparr>"
  let ?h2 = "\<lparr>ih_length = 22, ih_type = 2, ih_attributes = 0, ih_reserved = 0\<rparr>"
  let ?w = "BytesIO sample_file_payload"
  let ?n = "ascii_decode_ignore (bytes_at (stream_buf ?w) (stream_pos ?w + 4)
      (nat (u16_at (stream_buf ?w) (stream_pos ?w + 2)) - 1))"
  let ?c = "bytes_at (stream_buf ?w)
      (stream_pos ?w + 9 + nat (u16_at (stream_buf ?w) (stream_pos ?w + 2)))
      (nat (u16_at (stream_buf ?w)
         (stream_pos ?w + 6 + nat (u16_at (stream_buf ?w) (stream_pos ?w + 2))) - 1))"
  have ok: "fst (parse_file ?h4 False False ''out'' ?w) = Inr ()"
    "fst (parse_file ?h2 True False ''out'' ?w) = Inr ()"
    "fst (parse_file ?h4 False True ''out'' ?w) = Inr ()"
    "fst (parse_file ?h2 True True ''out'' ?w) = Inr ()"
    by code_simp+
  have ev: "map fst (written (snd (save_to_file (?n @ ''__81FF_0'') ?c ''out'' ?w))) = [''out/abc__81FF_0'']"
    "map fst (written (snd (save_to_file (?n @ ''__E1FF_F'') ?c ''out'' ?w))) = [''out/abc__E1FF_F'']"
    "map fst (written (snd (save_to_file ?n ?c ''out'' ?w))) = [''out/abc'']"
    by code_simp+
  note a = file_item_output_name[where h = ?h4 and out = "''out''" and w = ?w,
      THEN conjunct1, rule_format, OF ok(1)]
  note b = file_item_output_name[where h = ?h2 and out = "''out''" and w = ?w,
      THEN conjunct2, THEN conjunct1, rule_format, OF ok(2)]
  note c = file_item_output_name[where h = ?h4 and out = "''out''" and w = ?w and is_nv = False,
      THEN conjunct2, THEN conjunct2, THEN conjunct1, rule_format, OF ok(3)]
  note d = file_item_output_name[where h = ?h2 and out = "''out''" and w = ?w and is_nv = True,
      THEN conjunct2, THEN conjunct2, THEN conjunct1, rule_format, OF ok(4)]
  show ?thesis
    using a b c d ev by simp
qed

text \<open>
  C10. Decoding the name of a file-shaped item never fails, whatever the name bytes
  are. Let the buffer be \<open>pre @ name @ post\<close>, where \<open>pre\<close> ends with the file header
  magic 1 and the name length, \<open>name\<close> are the name bytes (any bytes at all) and
  \<open>post\<close> starts with the size magic 2, a data size of at least 1, the data magic
  and the data, and let the record length fit. Then the item is decoded, and the file
  is written under the name obtained from \<open>name\<close> without its last byte by dropping
  every byte above 127 (plus the suffix). The decoded text consists of the bytes below
  128 in their order, so it is shorter than the bytes decoded by the number of bytes
  above 127.
\<close>

theorem file_name_decoding_never_fails:
  "(stream_buf w = pre @ name @ post \<and> length pre = stream_pos w + 4 \<and>
    u16_at pre (stream_pos w) = 1 \<and> u16_at pre (stream_pos w + 2) = int (length name) \<and>
    u16_at post 0 = 2 \<and> 1 \<le> u16_at post 2 \<and> 4 + nat (u16_at post 2) \<le> length post \<and>
    16 + int (length name) + u16_at post 2 = ih_length h \<longrightarrow>
      fst (parse_file h is_nv nx out w) = Inr () \<and>
      written (snd (parse_file h is_nv nx out w)) =
        written w @
          [(os_path_join out (dropWhile (\<lambda>c. c = CHR ''/'')
              (ascii_decode_ignore (butlast name) @
               (if nx then [] else if is_nv then ''__E1FF_F'' else ''__81FF_0''))),
            bytes_at post 5 (nat (u16_at post 2 - 1)))])
   \<and> map of_char (ascii_decode_ignore bs) = map unat (filter (\<lambda>b. b < 128) bs)
   \<and> length (ascii_decode_ignore bs) + length (filter (\<lambda>b. \<not> b < 128) bs) = length bs"
proof (intro conjI impI)
  assume a: "stream_buf w = pre @ name @ post \<and> length pre = stream_pos w + 4 \<and>
    u16_at pre (stream_pos w) = 1 \<and> u16_at pre (stream_pos w + 2) = int (length name) \<and>
    u16_at post 0 = 2 \<and> 1 \<le> u16_at post 2 \<and> 4 + nat (u16_at post 2) \<le> length post \<and>
    16 + int (length name) + u16_at post 2 = ih_length h"
  have r: "parse_file h is_nv nx out w =
     (Inr (), w\<lparr>stream_pos := stream_pos w + 8 + length name + nat (u16_at post 2),
        written := written w @
           [(os_path_join out (dropWhile (\<lambda>c. c = CHR ''/'')
               (ascii_decode_ignore (butlast name) @
                (if nx then [] else if is_nv then ''__E1FF_F'' else ''__81FF_0''))),
             bytes_at post 5 (nat (u16_at post 2 - 1)))]\<rparr>)"
    using a by (intro parse_file_any_name) blast+
  show "fst (parse_file h is_nv nx out w) = Inr ()"
    by (simp add: r)
  show "written (snd (parse_file h is_nv nx out w)) =
        written w @
          [(os_path_join out (dropWhile (\<lambda>c. c = CHR ''/'')
              (ascii_decode_ignore (butlast name) @
               (if nx then [] else if is_nv then ''__E1FF_F'' else ''__81FF_0''))),
            bytes_at post 5 (nat (u16_at post 2 - 1)))]"
    by (simp add: r)
next
  show "map of_char (ascii_decode_ignore bs) = map unat (filter (\<lambda>b. b < 128) bs)"
    by (rule ascii_decode_ignore_codes)
next
  show "length (ascii_decode_ignore bs) + length (filter (\<lambda>b. \<not> b < 128) bs) = length bs"
    by (rule ascii_decode_ignore_length)
qed

theorem file_name_decoding_never_fails_witness:
  "sample_file_payload_non_ascii = [0x01, 0x00, 0x04, 0x00] @ [0x61, 0xFF, 0x62, 0x00] @
      [0x02, 0x00, 0x02, 0x00, 0x00, 0xCC]
   \<and> fst (parse_file \<lparr>ih_length = 22, ih_type = 4, ih_attributes = 0, ih_reserved = 0\<rparr>
        False False ''out'' (BytesIO sample_file_payload_non_ascii)) = Inr ()
   \<and> written (snd (parse_file \<lparr>ih_length = 22, ih_type = 4, ih_attributes = 0, ih_reserved = 0\<rparr>
        False False ''out'' (BytesIO sample_file_payload_non_ascii))) =
       [(''out/ab__81FF_0'', [0xCC])]
   \<and> length (ascii_decode_ignore [0x61, 0xFF, 0x62]) = 2"
proof -
  let ?h = "\<lparr>ih_length = 22, ih_type = 4, ih_attributes = 0, ih_reserved = 0\<rparr>"
  let ?w = "BytesIO sample_file_payload_non_ascii"
  let ?pre = "[0x01, 0x00, 0x04, 0x00] :: byte list"
  let ?name = "[0x61, 0xFF, 0x62, 0x00] :: byte list"
  let ?post = "[0x02, 0x00, 0x02, 0x00, 0x00, 0xCC] :: byte list"
  have split: "sample_file_payload_non_ascii = ?pre @ ?name @ ?post"
    by (simp add: sample_file_payload_non_ascii_def)
  have hyp: "stream_buf ?w = ?pre @ ?name @ ?post \<and> length ?pre = stream_pos ?w + 4 \<and>
    u16_at ?pre (stream_pos ?w) = 1 \<and> u16_at ?pre (stream_pos ?w + 2) = int (length ?name) \<and>
    u16_at ?post 0 = 2 \<and> 1 \<le> u16_at ?post 2 \<and> 4 + nat (u16_at ?post 2) \<le> length ?post \<and>
    16 + int (length ?name) + u16_at ?post 2 = ih_length ?h"
    by code_simp
  have ev: "written ?w @
          [(os_path_join ''out'' (dropWhile (\<lambda>c. c = CHR ''/'')
              (ascii_decode_ignore (butlast ?name) @
               (if False then [] else if False then ''__E1FF_F'' else ''__81FF_0''))),
            bytes_at ?post 5 (nat (u16_at ?post 2 - 1)))] = [(''out/ab__81FF_0'', [0xCC])]"
    by code_simp
  have short: "length (ascii_decode_ignore [0x61, 0xFF, 0x62]) = 2"
    by code_simp
  note a = file_name_decoding_never_fails[where w = ?w and pre = ?pre and name = ?name
      and post = ?post and h = ?h and is_nv = False and nx = False and out = "''out''",
      THEN conjunct1, rule_format, OF hyp]
  have a1: "fst (parse_file ?h False False ''out'' ?w) = Inr ()"
    using a by blast
  have a2: "written (snd (parse_file ?h False False ''out'' ?w)) = [(''out/ab__81FF_0'', [0xCC])]"
    using a ev by (simp only:)
  show ?thesis
    using split a1 a2 short by blast
qed

text \<open>
  C4. The exit status of \<^verbatim>\<open>main\<close> on a valid input. The call in line 257 passes the
  name \<^verbatim>\<open>no_extra\<close>, which is bound neither in \<^verbatim>\<open>main\<close> nor at module level (the parsed
  flag is \<^verbatim>\<open>args.no_extra\<close>). Evaluating it raises \<^verbatim>\<open>NameError\<close> inside the \<^verbatim>\<open>try\<close>
  block, before \<^verbatim>\<open>MbnExtractor.extract\<close> is called; the handler for other exceptions
  ends the process with status 1. So the status is 2 when the input file is missing
  and 1 otherwise (\<open>main_exit_status\<close>). Evaluated here: the input file exists,
  extracting it succeeds and writes the two item files, and yet \<^verbatim>\<open>main\<close> ends with
  status 1 and has written nothing.
\<close>

theorem main_exits_1_on_valid_input:
  "isfile sample_env (abspath sample_env (arg_input sample_args))
   \<and> fst (MbnExtractor_extract ''/in/carrier.mbn'' ''/in/mcfg_sw'' False sample_env) = Inr ()
   \<and> map fst (snd (MbnExtractor_extract ''/in/carrier.mbn'' ''/in/mcfg_sw'' False sample_env)) =
       [''/in/mcfg_sw/NvItem__00000007'', ''/in/mcfg_sw/abc__81FF_0'']
   \<and> main sample_args sample_env = (1, [])"
  by code_simp

end
